theory Spec2Isabelle
  imports Main
begin

text \<open>
  A shallow embedding of the filter coordinator of datatable-filters
  (\<^verbatim>\<open>src/js/filters.js\<close>) and of its text-input filter. The coordinator's methods
  become functions on a record of its fields; the grid and the filter objects it drives
  are state it passes along; every call it makes on either is appended to a record of
  calls, so that order and arguments can be stated. An exception is a value of
  \<open>js_error\<close>: a function that can throw returns \<open>Inl\<close> of it, and what it had
  done until then is not kept.
\<close>

section \<open>Shared values\<close>

text \<open>
  A JavaScript exception that the coordinator can run into: calling something that is not a
  function, or reading a property of \<^verbatim>\<open>undefined\<close>.
\<close>

datatype js_error = TypeError

text \<open>
  The per-column search entry of the grid, as \<^verbatim>\<open>column(c).search(input, regex, smart)\<close>
  stores it: the search string, the regex flag and the smart flag.
\<close>

type_synonym search = "string \<times> bool \<times> bool"

text \<open>
  \<^verbatim>\<open>Array.prototype.join\<close>: the elements separated by \<open>sep\<close>; the empty array gives
  the empty string.
\<close>

fun join :: "string \<Rightarrow> string list \<Rightarrow> string" where
  "join sep [] = []"
| "join sep [x] = x"
| "join sep (x # y # ys) = x @ sep @ join sep (y # ys)"

text \<open>
  \<^verbatim>\<open>.unique()\<close> of the grid's API: the loop keeps the first occurrence of every value
  and drops the later ones, \<open>out\<close> being the values kept so far.
\<close>

fun unique_from :: "'a list \<Rightarrow> 'a list \<Rightarrow> 'a list" where
  "unique_from out [] = out"
| "unique_from out (v # vs) =
     (if v \<in> set out then unique_from out vs else unique_from (out @ [v]) vs)"

definition unique :: "'a list \<Rightarrow> 'a list" where
  "unique src = unique_from [] src"

section \<open>The text-input filter (src/unnamed/part_000)\<close>

text \<open>
  The only state of the input filter that its own methods read or write is the value of
  its \<^verbatim>\<open><input type="text">\<close> element, \<^verbatim>\<open>this.$dom.val()\<close>. Before \<^verbatim>\<open>init\<close> there
  is no element: \<open>dom_val\<close> is \<open>None\<close> and every method that dereferences
  \<^verbatim>\<open>this.$dom\<close> throws.
\<close>

record InputFilter =
  dom_val :: "string option"

definition InputFilter_getInitialQuery :: "InputFilter \<Rightarrow> string" where
  "InputFilter_getInitialQuery s = ''''"

definition InputFilter_init :: "InputFilter \<Rightarrow> InputFilter" where
  "InputFilter_init s = s\<lparr>dom_val := Some (InputFilter_getInitialQuery s)\<rparr>"

definition InputFilter_populate :: "string list \<Rightarrow> InputFilter \<Rightarrow> InputFilter" where
  "InputFilter_populate vals s = s"

definition InputFilter_update :: "string list \<Rightarrow> InputFilter \<Rightarrow> InputFilter" where
  "InputFilter_update vals s = s"

definition InputFilter_noSelectionQuery :: "InputFilter \<Rightarrow> string" where
  "InputFilter_noSelectionQuery s = ''''"

definition InputFilter_isRegexMatch :: "InputFilter \<Rightarrow> bool" where
  "InputFilter_isRegexMatch s = True"

definition InputFilter_hasValue :: "InputFilter \<Rightarrow> js_error + bool" where
  "InputFilter_hasValue s =
     (case dom_val s of None \<Rightarrow> Inl TypeError | Some v \<Rightarrow> Inr (v \<noteq> ''''))"

definition InputFilter_selectedQuery :: "InputFilter \<Rightarrow> js_error + string" where
  "InputFilter_selectedQuery s =
     (case dom_val s of None \<Rightarrow> Inl TypeError | Some v \<Rightarrow> Inr v)"

definition InputFilter_reset :: "InputFilter \<Rightarrow> js_error + InputFilter" where
  "InputFilter_reset s =
     (case dom_val s of None \<Rightarrow> Inl TypeError
      | Some v \<Rightarrow> Inr (s\<lparr>dom_val := Some ''''\<rparr>))"

section \<open>The grid, as the coordinator consumes it\<close>

text \<open>
  The grid is the DataTables instance behind \<^verbatim>\<open>this.tableAPI\<close>. It is not part of the
  repository; the embedding keeps the part of its state that the coordinator reads or
  writes, and a record of the calls made on it and on the filters, in the order they
  happen.
\<close>

datatype route = ClientRoute | ServerRoute

datatype call =
    Search nat string bool bool
  | Draw
  | AjaxUrl string
  | AjaxReload
  | On string
  | One string
  | HeaderAppend nat
  | FInit nat
  | FRegister nat route
  | FRender nat nat "string list"
  | FRefresh nat "string list"
  | AddClass nat string
  | Attr nat "(string \<times> string) list"

text \<open>
  A column of \<^verbatim>\<open>settings.aoColumns\<close>: its optional filter descriptor
  (\<^verbatim>\<open>param.filter\<close>), its visibility and the HTML of its header cell. The descriptor
  holds the registry key \<^verbatim>\<open>type\<close> and the type-specific options; \<open>fcolumn\<close> and
  \<open>frenderColumn\<close> are the properties \<^verbatim>\<open>column\<close> and \<^verbatim>\<open>renderColumn\<close> of the
  descriptor, when it carries them.
\<close>

record descriptor =
  ftype :: string
  fcolumn :: "nat option"
  frenderColumn :: "nat option"
  fparams :: "(string \<times> string) list"

record column_cfg =
  cfilter :: "descriptor option"
  bVisible :: bool
  sTitle :: string

text \<open>
  \<open>rows\<close> holds the rendered (\<^verbatim>\<open>'display'\<close>) cells of the loaded rows in their current
  order; \<open>searchCols\<close> is the per-column search state; \<open>rowFilter\<close> is what the grid's
  global search and search plug-ins, which the coordinator never writes, let through;
  \<open>matches\<close> is the grid's own test of
  one cell against one non-empty search; \<open>initSubs\<close>, \<open>xhrSubs\<close> and \<open>preDrawOnce\<close> count
  the coordinator's handlers bound to \<^verbatim>\<open>init\<close>, to \<^verbatim>\<open>xhr\<close> and, one-shot, to
  \<^verbatim>\<open>preDraw\<close>; \<open>headerRows\<close> lists the rows appended to the table header, each by its
  number of cells.
\<close>

record grid =
  aoColumns :: "column_cfg list"
  rows :: "string list list"
  searchCols :: "nat \<Rightarrow> search"
  rowFilter :: "string list \<Rightarrow> bool"
  matches :: "search \<Rightarrow> string \<Rightarrow> bool"
  ajaxUrl :: string
  initSubs :: nat
  xhrSubs :: nat
  preDrawOnce :: nat
  headerRows :: "nat list"
  calls :: "call list"

text \<open>A column search with an empty search string filters nothing.\<close>

definition passes :: "grid \<Rightarrow> search \<Rightarrow> string \<Rightarrow> bool" where
  "passes g sr cell = (if fst sr = [] then True else matches g sr cell)"

text \<open>
  A row is displayed when it passes the global search and the plug-ins and each of its
  cells passes the search of its column.
\<close>

definition row_passing :: "grid \<Rightarrow> (nat \<Rightarrow> search) \<Rightarrow> string list \<Rightarrow> bool" where
  "row_passing g \<sigma> r =
     (rowFilter g r \<and> list_all (\<lambda>(c, cell). passes g (\<sigma> c) cell) (enumerate 0 r))"

definition cell :: "string list \<Rightarrow> nat \<Rightarrow> string" where
  "cell r c = (if c < length r then r ! c else [])"

text \<open>
  \<^verbatim>\<open>cells(null, col, modifier).render('display')\<close>: the cells of column \<open>col\<close>, of all
  rows or, with \<^verbatim>\<open>{search: 'applied'}\<close>, of the rows the grid displays. The selection
  pairs every selected row with the index \<open>col\<close>, whether the grid has such a column or
  not; rendering a cell of a column the grid does not have throws, so the call throws
  unless no row is selected.
\<close>

definition cells_render :: "bool \<Rightarrow> nat \<Rightarrow> grid \<Rightarrow> js_error + string list" where
  "cells_render applied col g =
     (let sel = (if applied then filter (row_passing g (searchCols g)) (rows g) else rows g)
      in if col < length (aoColumns g) then Inr (map (\<lambda>r. cell r col) sel)
         else if sel = [] then Inr []
         else Inl TypeError)"

text \<open>
  \<^verbatim>\<open>column(c).search(input, regex, smart)\<close> stores the search in the entry of column
  \<open>c\<close> and filters the rows again. For an index the grid has no column for there is no
  entry to store it in, and the call changes nothing.
\<close>

definition api_search :: "nat \<Rightarrow> string \<Rightarrow> bool \<Rightarrow> bool \<Rightarrow> grid \<Rightarrow> grid" where
  "api_search c q re sm g =
     g\<lparr>searchCols := (if c < length (aoColumns g) then (searchCols g)(c := (q, re, sm))
                        else searchCols g),
       calls := calls g @ [Search c q re sm]\<rparr>"

definition api_ajax_url :: "string \<Rightarrow> grid \<Rightarrow> grid" where
  "api_ajax_url u g = g\<lparr>ajaxUrl := u, calls := calls g @ [AjaxUrl u]\<rparr>"

definition api_ajax_reload :: "grid \<Rightarrow> grid" where
  "api_ajax_reload g = g\<lparr>calls := calls g @ [AjaxReload]\<rparr>"

definition api_on_init :: "grid \<Rightarrow> grid" where
  "api_on_init g = g\<lparr>initSubs := Suc (initSubs g), calls := calls g @ [On ''init'']\<rparr>"

definition api_on_xhr :: "grid \<Rightarrow> grid" where
  "api_on_xhr g = g\<lparr>xhrSubs := Suc (xhrSubs g), calls := calls g @ [On ''xhr'']\<rparr>"

definition api_one_preDraw :: "grid \<Rightarrow> grid" where
  "api_one_preDraw g =
     g\<lparr>preDrawOnce := Suc (preDrawOnce g), calls := calls g @ [One ''preDraw'']\<rparr>"

text \<open>
  \<^verbatim>\<open>$(column(col).header()).html()\<close>: reading the header node of a column the grid does
  not have throws.
\<close>

definition header_html :: "nat \<Rightarrow> grid \<Rightarrow> js_error + string" where
  "header_html col g =
     (if col < length (aoColumns g) then Inr (sTitle (aoColumns g ! col)) else Inl TypeError)"

section \<open>Filter objects\<close>

text \<open>
  A filter object as the coordinator sees it: the placement fields, the optional class and
  attributes, the widget state \<open>widget\<close> that only the filter's own methods touch, and the
  methods of the capability contract, which the filter variant supplies
  (\<^verbatim>\<open>$.extend({}, Variant, settings)\<close> copies them into the object). The methods are
  taken as returning normally.
\<close>

record 's filterobj =
  column :: nat
  renderColumn :: nat
  className :: "string option"
  attrs :: "(string \<times> string) list option"
  widget :: 's
  f_init :: "'s \<Rightarrow> 's"
  f_render :: "string \<Rightarrow> string list \<Rightarrow> 's \<Rightarrow> 's"
  f_refresh :: "string list \<Rightarrow> 's \<Rightarrow> 's"
  f_hasValue :: "'s \<Rightarrow> bool"
  f_getQuery :: "'s \<Rightarrow> string"
  f_getInitialQuery :: "'s \<Rightarrow> string"
  f_getServerQuery :: "'s \<Rightarrow> string"
  f_isRegexMatch :: "'s \<Rightarrow> bool"
  f_isServerSide :: "'s \<Rightarrow> bool"

definition init :: "'s filterobj \<Rightarrow> 's filterobj" where
  "init f = f\<lparr>widget := f_init f (widget f)\<rparr>"

definition render :: "string \<Rightarrow> string list \<Rightarrow> 's filterobj \<Rightarrow> 's filterobj" where
  "render label vals f = f\<lparr>widget := f_render f label vals (widget f)\<rparr>"

definition refresh :: "string list \<Rightarrow> 's filterobj \<Rightarrow> 's filterobj" where
  "refresh vals f = f\<lparr>widget := f_refresh f vals (widget f)\<rparr>"

definition hasValue :: "'s filterobj \<Rightarrow> bool" where
  "hasValue f = f_hasValue f (widget f)"

definition getQuery :: "'s filterobj \<Rightarrow> string" where
  "getQuery f = f_getQuery f (widget f)"

definition getInitialQuery :: "'s filterobj \<Rightarrow> string" where
  "getInitialQuery f = f_getInitialQuery f (widget f)"

definition getServerQuery :: "'s filterobj \<Rightarrow> string" where
  "getServerQuery f = f_getServerQuery f (widget f)"

definition isRegexMatch :: "'s filterobj \<Rightarrow> bool" where
  "isRegexMatch f = f_isRegexMatch f (widget f)"

definition isServerSide :: "'s filterobj \<Rightarrow> bool" where
  "isServerSide f = f_isServerSide f (widget f)"

section \<open>The coordinator (src/js/filters.js)\<close>

text \<open>
  The fields of a \<^verbatim>\<open>Filters\<close> instance. \<^verbatim>\<open>this.$header\<close> is a node of the grid's own
  DOM and lives in \<open>headerRows\<close> of the grid. A filter passed around by reference
  (\<^verbatim>\<open>params.filter\<close>, the elements of \<^verbatim>\<open>filtersToRefresh\<close>) is named by its position in
  \<open>filters\<close>, so that a method call on it updates the one object of the collection.
\<close>

record 's Filters =
  tableAPI :: grid
  url :: string
  filters :: "'s filterobj list"

type_synonym 's builder = "nat \<Rightarrow> nat \<Rightarrow> descriptor \<Rightarrow> 's filterobj"

definition log_call :: "call \<Rightarrow> 's Filters \<Rightarrow> 's Filters" where
  "log_call c this = this\<lparr>tableAPI := (tableAPI this)\<lparr>calls := calls (tableAPI this) @ [c]\<rparr>\<rparr>"

text \<open>
  The \<^verbatim>\<open>$.each\<close> over \<^verbatim>\<open>settings.aoColumns\<close> of the constructor. \<open>col\<close> is the index of
  the column at hand, \<open>renderCol\<close> the number of visible columns before it. The builder is
  looked up under the descriptor's type name and called with the options
  \<^verbatim>\<open>$.extend({column: col, renderColumn: renderCol}, param.filter)\<close>: the descriptor's own
  \<^verbatim>\<open>column\<close> and \<^verbatim>\<open>renderColumn\<close>, when it has them, replace the two defaults. A name
  the registry does not hold yields \<^verbatim>\<open>undefined\<close>, and calling it throws. (The registry
  is a plain object, so the names of \<^verbatim>\<open>Object.prototype\<close> resolve too; what those
  functions return has no \<^verbatim>\<open>init\<close> method, and the constructor throws the same exception
  one step later, at \<^verbatim>\<open>filter.init()\<close>.)
\<close>

fun build_filters ::
  "(string \<rightharpoonup> 's builder) \<Rightarrow> nat \<Rightarrow> nat \<Rightarrow> column_cfg list \<Rightarrow> 's filterobj list
     \<Rightarrow> js_error + 's filterobj list" where
  "build_filters builders col renderCol [] fs = Inr fs"
| "build_filters builders col renderCol (param # ps) fs =
     (case cfilter param of
        None \<Rightarrow>
          build_filters builders (Suc col)
            (if bVisible param then Suc renderCol else renderCol) ps fs
      | Some d \<Rightarrow>
          (case builders (ftype d) of
             None \<Rightarrow> Inl TypeError
           | Some builder \<Rightarrow>
               build_filters builders (Suc col)
                 (if bVisible param then Suc renderCol else renderCol) ps
                 (fs @ [builder (case fcolumn d of None \<Rightarrow> col | Some c \<Rightarrow> c)
                          (case frenderColumn d of None \<Rightarrow> renderCol | Some c \<Rightarrow> c) d])))"

definition applyFilter :: "'s filterobj \<Rightarrow> 's Filters \<Rightarrow> 's Filters" where
  "applyFilter f this =
     this\<lparr>tableAPI :=
       api_search (column f) (getQuery f) (isRegexMatch f) False (tableAPI this)\<rparr>"

definition applyInitialFilter :: "'s filterobj \<Rightarrow> 's Filters \<Rightarrow> 's Filters" where
  "applyInitialFilter f this =
     this\<lparr>tableAPI :=
       api_search (column f) (getInitialQuery f) (isRegexMatch f) False (tableAPI this)\<rparr>"

definition init_all :: "'s Filters \<Rightarrow> 's Filters" where
  "init_all this =
     foldl (\<lambda>s j. log_call (FInit (column (filters s ! j)))
                     (s\<lparr>filters := (filters s)[j := init (filters s ! j)]\<rparr>))
       this [0..<length (filters this)]"

text \<open>
  The constructor, run on \<^verbatim>\<open>preInit.dt\<close> with the grid's settings. With no filter built
  it leaves \<^verbatim>\<open>this.filters\<close> at the prototype's empty array and does nothing else.
\<close>

definition new_Filters :: "(string \<rightharpoonup> 's builder) \<Rightarrow> grid \<Rightarrow> js_error + 's Filters" where
  "new_Filters builders settings =
     (case build_filters builders 0 0 (aoColumns settings) [] of
        Inl e \<Rightarrow> Inl e
      | Inr fs \<Rightarrow>
          (let this = \<lparr>tableAPI = settings, url = ajaxUrl settings, filters = []\<rparr> in
           if length fs > 0 then
             (let this1 = init_all (this\<lparr>filters := fs\<rparr>);
                  this2 = foldl (\<lambda>s f. applyInitialFilter f s) this1 (filters this1)
              in Inr (this2\<lparr>tableAPI := api_on_init (tableAPI this2)\<rparr>))
           else Inr this))"

definition getColumnData :: "nat \<Rightarrow> 's Filters \<Rightarrow> js_error + string list" where
  "getColumnData col this = map_sum id unique (cells_render False col (tableAPI this))"

definition getFilteredColumnData :: "nat \<Rightarrow> 's Filters \<Rightarrow> js_error + string list" where
  "getFilteredColumnData col this = map_sum id unique (cells_render True col (tableAPI this))"

text \<open>
  \<^verbatim>\<open>forEach\<close> over the filters at the positions \<open>js\<close>, in that order; an exception in
  the callback ends the loop.
\<close>

fun forEach ::
  "(nat \<Rightarrow> 's Filters \<Rightarrow> js_error + 's Filters) \<Rightarrow> nat list \<Rightarrow> 's Filters
     \<Rightarrow> js_error + 's Filters" where
  "forEach body [] this = Inr this"
| "forEach body (j # js) this =
     (case body j this of Inl e \<Rightarrow> Inl e | Inr this' \<Rightarrow> forEach body js this')"

text \<open>
  The callback that both refresh loops run on one filter: read the column's values through
  the given accessor, hand them to the filter's \<^verbatim>\<open>refresh\<close>, apply the filter.
\<close>

definition refresh_step ::
  "(nat \<Rightarrow> 's Filters \<Rightarrow> js_error + string list) \<Rightarrow> nat \<Rightarrow> 's Filters
     \<Rightarrow> js_error + 's Filters" where
  "refresh_step accessor j this =
     (let f = filters this ! j in
      case accessor (column f) this of
        Inl e \<Rightarrow> Inl e
      | Inr vals \<Rightarrow>
          (let f' = refresh vals f
           in Inr (applyFilter f'
                     (log_call (FRefresh (column f) vals)
                        (this\<lparr>filters := (filters this)[j := f']\<rparr>)))))"

text \<open>The \<^verbatim>\<open>forEach\<close> of \<^verbatim>\<open>refreshFilters\<close>, before its \<^verbatim>\<open>drawTable\<close>.\<close>

definition refresh_each :: "'s Filters \<Rightarrow> js_error + 's Filters" where
  "refresh_each this =
     forEach (refresh_step getColumnData) [0..<length (filters this)] this"

text \<open>
  A redraw of the grid fires \<^verbatim>\<open>preDraw\<close> before it renders. The handlers bound at that
  moment are the \<open>preDrawOnce\<close> one-shot bindings of \<^verbatim>\<open>refreshFilters\<close>. jQuery runs
  all of them, from the list as it stood when the event was fired; they are proxies of the
  one function, so the first to run unbinds them all. Each runs the body of
  \<^verbatim>\<open>refreshFilters\<close>: the refresh loop, then \<^verbatim>\<open>drawTable\<close>, whose own redraw finds no
  handler bound any more. \<open>run_handlers n\<close> runs \<open>n\<close> such handlers in turn.
\<close>

fun run_handlers :: "nat \<Rightarrow> 's Filters \<Rightarrow> js_error + 's Filters" where
  "run_handlers 0 this = Inr this"
| "run_handlers (Suc n) this =
     (case refresh_each this of
        Inl e \<Rightarrow> Inl e
      | Inr this' \<Rightarrow> run_handlers n (log_call Draw this'))"

definition redraw :: "'s Filters \<Rightarrow> js_error + 's Filters" where
  "redraw this =
     run_handlers (preDrawOnce (tableAPI this))
       (this\<lparr>tableAPI := (tableAPI this)\<lparr>preDrawOnce := 0\<rparr>\<rparr>)"

definition drawTable :: "'s Filters \<Rightarrow> js_error + 's Filters" where
  "drawTable this = redraw (log_call Draw this)"

definition refreshFilters :: "'s Filters \<Rightarrow> js_error + 's Filters" where
  "refreshFilters this =
     (case refresh_each this of Inl e \<Rightarrow> Inl e | Inr this' \<Rightarrow> drawTable this')"

definition registerAjaxListener :: "'s Filters \<Rightarrow> 's Filters" where
  "registerAjaxListener this = this\<lparr>tableAPI := api_on_xhr (tableAPI this)\<rparr>"

definition setupHeaderRow :: "'s Filters \<Rightarrow> 's Filters" where
  "setupHeaderRow this =
     (let n = length (filter bVisible (aoColumns (tableAPI this))) in
      log_call (HeaderAppend n)
        (this\<lparr>tableAPI := (tableAPI this)\<lparr>headerRows := headerRows (tableAPI this) @ [n]\<rparr>\<rparr>))"

definition renderFilter :: "nat \<Rightarrow> 's Filters \<Rightarrow> js_error + 's Filters" where
  "renderFilter j this =
     (let f = filters this ! j;
          col = column f
      in case header_html col (tableAPI this) of
           Inl e \<Rightarrow> Inl e
         | Inr label \<Rightarrow>
             (let this1 = log_call (FRegister col
                            (if isServerSide f then ServerRoute else ClientRoute)) this
              in case getColumnData col this1 of
                   Inl e \<Rightarrow> Inl e
                 | Inr vals \<Rightarrow>
                     (let f' = render label vals f;
                          this2 = log_call (FRender col (renderColumn f) vals)
                                    (this1\<lparr>filters := (filters this1)[j := f']\<rparr>);
                          this3 = (case className f' of
                                     None \<Rightarrow> this2
                                   | Some cls \<Rightarrow>
                                       if cls = [] then this2
                                       else log_call (AddClass col cls) this2)
                      in Inr (case attrs f' of
                                None \<Rightarrow> this3
                              | Some as \<Rightarrow> log_call (Attr col as) this3))))"

definition renderFilters :: "'s Filters \<Rightarrow> js_error + 's Filters" where
  "renderFilters this = forEach renderFilter [0..<length (filters this)] this"

definition onDataTableInit :: "'s Filters \<Rightarrow> js_error + 's Filters" where
  "onDataTableInit this = renderFilters (registerAjaxListener (setupHeaderRow this))"

text \<open>
  \<^verbatim>\<open>onClientFilterChange(event, params)\<close>, with \<^verbatim>\<open>params.filter\<close> the filter at
  position \<open>i\<close>. A payload that is no filter of the collection has no \<^verbatim>\<open>column\<close> to
  read, and the handler throws.
\<close>

definition onClientFilterChange :: "nat \<Rightarrow> 's Filters \<Rightarrow> js_error + 's Filters" where
  "onClientFilterChange i this =
     (if i < length (filters this) then
        (let changed = filters this ! i;
             this1 = applyFilter changed this;
             filtersToRefresh =
               (if hasValue changed
                then filter (\<lambda>j. column (filters this1 ! j) \<noteq> column changed)
                       [0..<length (filters this1)]
                else [0..<length (filters this1)])
         in case forEach (refresh_step getFilteredColumnData) filtersToRefresh this1 of
              Inl e \<Rightarrow> Inl e
            | Inr this2 \<Rightarrow> drawTable this2)
      else Inl TypeError)"

definition onServerFilterChange :: "'s Filters \<Rightarrow> 's Filters" where
  "onServerFilterChange this =
     (let serverQuery = join ''&'' (map getServerQuery (filter isServerSide (filters this)))
      in this\<lparr>tableAPI := api_ajax_reload (api_ajax_url (url this @ ''?'' @ serverQuery) (tableAPI this))\<rparr>)"

section \<open>Events of the grid\<close>

text \<open>
  What the grid does on its own. It fires \<^verbatim>\<open>init\<close> once, after the first load. It fires
  \<^verbatim>\<open>xhr\<close> whenever a remote request returns: after a successful one it replaces its rows
  and redraws at once (\<open>fetch_complete\<close>); after a failed one it does neither
  (\<open>fire_xhr\<close> alone). A redraw that the grid starts for another reason (a sort, a page
  change) is \<open>redraw\<close> alone. The grid processes its rows on the client: a redraw does not
  fetch, and the reload asked for by \<^verbatim>\<open>ajax.reload()\<close> returns later, as an event of its
  own.
\<close>

fun repeat :: "nat \<Rightarrow> ('a \<Rightarrow> js_error + 'a) \<Rightarrow> 'a \<Rightarrow> js_error + 'a" where
  "repeat 0 h x = Inr x"
| "repeat (Suc n) h x = (case h x of Inl e \<Rightarrow> Inl e | Inr y \<Rightarrow> repeat n h y)"

definition fire_init :: "'s Filters \<Rightarrow> js_error + 's Filters" where
  "fire_init this = repeat (initSubs (tableAPI this)) onDataTableInit this"

definition xhr_callback :: "'s Filters \<Rightarrow> 's Filters" where
  "xhr_callback this = this\<lparr>tableAPI := api_one_preDraw (tableAPI this)\<rparr>"

definition fire_xhr :: "'s Filters \<Rightarrow> 's Filters" where
  "fire_xhr this = (xhr_callback ^^ xhrSubs (tableAPI this)) this"

text \<open>
  A successful request: \<open>load\<close> is the grid after \<^verbatim>\<open>xhr\<close> with the new rows in place,
  which it then filters by the search state in force and redraws.
\<close>

definition load :: "string list list \<Rightarrow> 's Filters \<Rightarrow> 's Filters" where
  "load rs this =
     (let this1 = fire_xhr this in this1\<lparr>tableAPI := (tableAPI this1)\<lparr>rows := rs\<rparr>\<rparr>)"

definition fetch_complete :: "string list list \<Rightarrow> 's Filters \<Rightarrow> js_error + 's Filters" where
  "fetch_complete rs this = redraw (load rs this)"

text \<open>
  A run of the grid's own events: successful fetches, each with the rows it delivers,
  failed requests, and redraws started for another reason.
\<close>

datatype grid_event = Fetched "string list list" | Failed | Redraws

fun step :: "grid_event \<Rightarrow> 's Filters \<Rightarrow> js_error + 's Filters" where
  "step (Fetched rs) this = fetch_complete rs this"
| "step Failed this = Inr (fire_xhr this)"
| "step Redraws this = redraw this"


text \<open>
  The life of a grid up to \<^verbatim>\<open>init\<close>: the constructor runs on \<^verbatim>\<open>preInit\<close>, the first
  load returns, \<^verbatim>\<open>init\<close> fires.
\<close>

definition start ::
  "(string \<rightharpoonup> 's builder) \<Rightarrow> grid \<Rightarrow> string list list \<Rightarrow> js_error + 's Filters" where
  "start builders settings rs =
     (case new_Filters builders settings of
        Inl e \<Rightarrow> Inl e
      | Inr this \<Rightarrow>
          (case fetch_complete rs this of Inl e \<Rightarrow> Inl e | Inr this' \<Rightarrow> fire_init this'))"

section \<open>Describing what the loops do\<close>

text \<open>
  The kind of a call, without its payload: a predicate applied to a column, a filter
  refreshed, a redraw asked for. \<open>refresh_payloads\<close> lists, in order, the column and the
  values of every \<^verbatim>\<open>refresh\<close> among the calls.
\<close>

datatype kind = Applied nat | Refreshed nat | Redrawn | Other

fun kind_of :: "call \<Rightarrow> kind" where
  "kind_of (Search c q re sm) = Applied c"
| "kind_of (FRefresh c vals) = Refreshed c"
| "kind_of Draw = Redrawn"
| "kind_of x = Other"

fun is_refresh :: "call \<Rightarrow> bool" where
  "is_refresh (FRefresh c vals) = True"
| "is_refresh x = False"

fun refresh_payloads :: "call list \<Rightarrow> (nat \<times> string list) list" where
  "refresh_payloads [] = []"
| "refresh_payloads (FRefresh c vals # cs) = (c, vals) # refresh_payloads cs"
| "refresh_payloads (x # cs) = refresh_payloads cs"

text \<open>
  What the two accessors return, as functions of the grid alone:
  \<open>column_values g c\<close> for \<^verbatim>\<open>getColumnData(c)\<close>, the distinct rendered values of
  column \<open>c\<close> over all rows, and \<open>displayed_values g \<sigma> c\<close> for
  \<^verbatim>\<open>getFilteredColumnData(c)\<close> when \<open>\<sigma>\<close> is the search state, the distinct rendered
  values over the rows the grid then displays: those that pass the global search and the
  plug-ins and every column search of \<open>\<sigma>\<close>, the search on \<open>c\<close> itself included.
\<close>

definition column_values :: "grid \<Rightarrow> nat \<Rightarrow> js_error + string list" where
  "column_values g c = map_sum id unique (cells_render False c g)"

definition displayed_values :: "grid \<Rightarrow> (nat \<Rightarrow> search) \<Rightarrow> nat \<Rightarrow> js_error + string list" where
  "displayed_values g \<sigma> c = map_sum id unique (cells_render True c (g\<lparr>searchCols := \<sigma>\<rparr>))"

text \<open>
  The distinct values of column \<open>c\<close> over the rows that pass what the grid filters by
  apart from the search on column \<open>c\<close>: the search of the column is left out of the row
  selection.
\<close>

definition others_values :: "grid \<Rightarrow> (nat \<Rightarrow> search) \<Rightarrow> nat \<Rightarrow> string list" where
  "others_values g \<sigma> c =
     unique (map (\<lambda>r. cell r c)
       (filter (\<lambda>r. rowFilter g r \<and>
                  list_all (\<lambda>(c', x). c' = c \<or> passes g (\<sigma> c') x) (enumerate 0 r))
          (rows g)))"

text \<open>
  Two grids that hold the same columns, rows, global filter and matcher answer both
  accessors alike.
\<close>

definition same_data :: "grid \<Rightarrow> grid \<Rightarrow> bool" where
  "same_data g' g =
     (aoColumns g' = aoColumns g \<and> rows g' = rows g \<and> rowFilter g' = rowFilter g \<and>
      matches g' = matches g)"

text \<open>The search state after a search on column \<open>c\<close> of a grid of \<open>n\<close> columns.\<close>

definition set_search :: "nat \<Rightarrow> (nat \<Rightarrow> search) \<Rightarrow> nat \<Rightarrow> search \<Rightarrow> (nat \<Rightarrow> search)" where
  "set_search n \<sigma> c v = (if c < n then \<sigma>(c := v) else \<sigma>)"

text \<open>The search state after a filter's predicate is applied.\<close>

definition apply_search :: "nat \<Rightarrow> (nat \<Rightarrow> search) \<Rightarrow> 's filterobj \<Rightarrow> (nat \<Rightarrow> search)" where
  "apply_search n \<sigma> f = set_search n \<sigma> (column f) (getQuery f, isRegexMatch f, False)"

text \<open>
  A refresh loop told by the list of filters. \<open>cascade V n P \<sigma> fs\<close> takes the filters
  \<open>fs\<close> in order and leaves alone those that \<open>P\<close> rejects. A filter it accepts is handed
  the values \<open>V \<sigma> c\<close> of its column \<open>c\<close> for the search state \<open>\<sigma>\<close> reached so far,
  and its predicate after that refresh becomes the search on \<open>c\<close>. The result is the
  filters, the search state and the calls made, or the exception of the first read that
  throws.
\<close>

fun cascade ::
  "((nat \<Rightarrow> search) \<Rightarrow> nat \<Rightarrow> js_error + string list) \<Rightarrow> nat \<Rightarrow> ('s filterobj \<Rightarrow> bool)
     \<Rightarrow> (nat \<Rightarrow> search) \<Rightarrow> 's filterobj list
     \<Rightarrow> js_error + ('s filterobj list \<times> (nat \<Rightarrow> search) \<times> call list)" where
  "cascade V n P \<sigma> [] = Inr ([], \<sigma>, [])"
| "cascade V n P \<sigma> (f # fs) =
     (if P f then
        (case V \<sigma> (column f) of
           Inl e \<Rightarrow> Inl e
         | Inr vals \<Rightarrow>
             (case cascade V n P
                     (set_search n \<sigma> (column f)
                        (getQuery (refresh vals f), isRegexMatch (refresh vals f), False)) fs of
                Inl e \<Rightarrow> Inl e
              | Inr (fs', \<sigma>', cs) \<Rightarrow>
                  Inr (refresh vals f # fs', \<sigma>',
                       FRefresh (column f) vals
                         # Search (column f) (getQuery (refresh vals f))
                             (isRegexMatch (refresh vals f)) False
                         # cs)))
      else
        (case cascade V n P \<sigma> fs of
           Inl e \<Rightarrow> Inl e
         | Inr (fs', \<sigma>', cs) \<Rightarrow> Inr (f # fs', \<sigma>', cs)))"

text \<open>
  The refresh set of \<^verbatim>\<open>onClientFilterChange\<close> for the changed filter: the filters on
  other columns when it has a value, all filters when it has none. \<open>client_cascade\<close> is
  the refresh loop over that set, from the search state that applying the changed filter
  leaves, each filter handed \<open>displayed_values\<close>.
\<close>

definition in_refresh_set :: "'s filterobj \<Rightarrow> 's filterobj \<Rightarrow> bool" where
  "in_refresh_set changed f = (if hasValue changed then column f \<noteq> column changed else True)"

definition client_cascade ::
  "nat \<Rightarrow> 's Filters \<Rightarrow> js_error + ('s filterobj list \<times> (nat \<Rightarrow> search) \<times> call list)" where
  "client_cascade i this =
     cascade (displayed_values (tableAPI this)) (length (aoColumns (tableAPI this)))
       (in_refresh_set (filters this ! i))
       (apply_search (length (aoColumns (tableAPI this))) (searchCols (tableAPI this))
          (filters this ! i))
       (filters this)"

text \<open>
  The columns and values that the cascade of \<^verbatim>\<open>onClientFilterChange\<close> hands to the
  filters \<open>fs\<close> of its refresh set, from the search state \<open>\<sigma>\<close>: each filter gets
  \<open>displayed_values\<close> for the search state that the filters before it have left.
\<close>

fun cascade_values ::
  "grid \<Rightarrow> (nat \<Rightarrow> search) \<Rightarrow> 's filterobj list \<Rightarrow> (nat \<times> string list) list" where
  "cascade_values g \<sigma> [] = []"
| "cascade_values g \<sigma> (f # fs) =
     (case displayed_values g \<sigma> (column f) of
        Inl e \<Rightarrow> []
      | Inr vals \<Rightarrow>
          (column f, vals)
            # cascade_values g
                (set_search (length (aoColumns g)) \<sigma> (column f)
                   (getQuery (refresh vals f), isRegexMatch (refresh vals f), False)) fs)"

text \<open>
  One filter's turn in \<^verbatim>\<open>refreshFilters\<close>: whether its column can be read, the filter
  after its \<^verbatim>\<open>refresh\<close> with the values of \<^verbatim>\<open>getColumnData\<close>, the two calls of the
  turn, and the search state after it.
\<close>

definition readable :: "grid \<Rightarrow> 's filterobj \<Rightarrow> bool" where
  "readable g f = (case column_values g (column f) of Inl e \<Rightarrow> False | Inr vals \<Rightarrow> True)"

definition refreshed :: "grid \<Rightarrow> 's filterobj \<Rightarrow> 's filterobj" where
  "refreshed g f = (case column_values g (column f) of Inl e \<Rightarrow> f | Inr vals \<Rightarrow> refresh vals f)"

definition refresh_calls :: "grid \<Rightarrow> 's filterobj \<Rightarrow> call list" where
  "refresh_calls g f =
     (case column_values g (column f) of
        Inl e \<Rightarrow> []
      | Inr vals \<Rightarrow>
          [FRefresh (column f) vals,
           Search (column f) (getQuery (refresh vals f)) (isRegexMatch (refresh vals f)) False])"

text \<open>The search entry and the call of \<^verbatim>\<open>applyInitialFilter\<close> for one filter.\<close>

definition apply_initial :: "nat \<Rightarrow> (nat \<Rightarrow> search) \<Rightarrow> 's filterobj \<Rightarrow> (nat \<Rightarrow> search)" where
  "apply_initial n \<sigma> f =
     set_search n \<sigma> (column f) (getInitialQuery f, isRegexMatch f, False)"

definition initial_call :: "'s filterobj \<Rightarrow> call" where
  "initial_call f = Search (column f) (getInitialQuery f) (isRegexMatch f) False"

text \<open>
  A state that another pass of the refresh loop leaves as it is: every filter is already
  refreshed with its column's values and its predicate is already applied.
\<close>

definition settled :: "'s Filters \<Rightarrow> bool" where
  "settled this =
     (list_all (readable (tableAPI this)) (filters this) \<and>
      map (refreshed (tableAPI this)) (filters this) = filters this \<and>
      foldl (apply_search (length (aoColumns (tableAPI this)))) (searchCols (tableAPI this))
        (filters this) = searchCols (tableAPI this))"




section \<open>Concrete grids and filter variants\<close>

text \<open>
  Data for concrete runs. The grid's matcher here is a case-sensitive substring test and
  its global filter lets every row through. The filter variants keep the typed or
  selected value and the option list as their widget state: a text filter that ignores the
  values it is refreshed with, a select filter that takes them as its options, a
  server-side filter that serialises its value as \<^verbatim>\<open>q=value\<close>, and a select filter that
  adds the values it is refreshed with to the options it has.
\<close>

fun has_prefix :: "string \<Rightarrow> string \<Rightarrow> bool" where
  "has_prefix [] ys = True"
| "has_prefix (x # xs) [] = False"
| "has_prefix (x # xs) (y # ys) = (x = y \<and> has_prefix xs ys)"

fun contains :: "string \<Rightarrow> string \<Rightarrow> bool" where
  "contains q [] = (q = [])"
| "contains q (c # cs) = (has_prefix q (c # cs) \<or> contains q cs)"

definition sample_grid :: "column_cfg list \<Rightarrow> string list list \<Rightarrow> grid" where
  "sample_grid cols rs =
     \<lparr>aoColumns = cols, rows = rs, searchCols = (\<lambda>c. ([], False, True)),
      rowFilter = (\<lambda>r. True),
      matches = (\<lambda>sr x. contains (fst sr) x), ajaxUrl = ''/data'',
      initSubs = 0, xhrSubs = 0, preDrawOnce = 0, headerRows = [], calls = []\<rparr>"

definition plain_column :: "bool \<Rightarrow> string \<Rightarrow> column_cfg" where
  "plain_column visible title = \<lparr>cfilter = None, bVisible = visible, sTitle = title\<rparr>"

definition filter_column :: "string \<Rightarrow> (string \<times> string) list \<Rightarrow> string \<Rightarrow> column_cfg" where
  "filter_column type_name params title =
     \<lparr>cfilter = Some \<lparr>ftype = type_name, fcolumn = None, frenderColumn = None, fparams = params\<rparr>,
      bVisible = True, sTitle = title\<rparr>"

type_synonym sample_widget = "string \<times> string list"

definition text_variant :: "nat \<Rightarrow> nat \<Rightarrow> string \<Rightarrow> sample_widget filterobj" where
  "text_variant col rc v =
     \<lparr>column = col, renderColumn = rc, className = None, attrs = None, widget = (v, []),
      f_init = (\<lambda>w. w), f_render = (\<lambda>label vals w. w), f_refresh = (\<lambda>vals w. w),
      f_hasValue = (\<lambda>w. fst w \<noteq> []), f_getQuery = fst, f_getInitialQuery = (\<lambda>w. []),
      f_getServerQuery = (\<lambda>w. []), f_isRegexMatch = (\<lambda>w. True),
      f_isServerSide = (\<lambda>w. False)\<rparr>"

definition select_variant :: "nat \<Rightarrow> nat \<Rightarrow> string \<Rightarrow> sample_widget filterobj" where
  "select_variant col rc v =
     \<lparr>column = col, renderColumn = rc, className = None, attrs = None, widget = (v, []),
      f_init = (\<lambda>w. w), f_render = (\<lambda>label vals w. (fst w, vals)),
      f_refresh = (\<lambda>vals w. (fst w, vals)),
      f_hasValue = (\<lambda>w. fst w \<noteq> []), f_getQuery = fst, f_getInitialQuery = fst,
      f_getServerQuery = (\<lambda>w. []), f_isRegexMatch = (\<lambda>w. False),
      f_isServerSide = (\<lambda>w. False)\<rparr>"

definition server_variant :: "nat \<Rightarrow> nat \<Rightarrow> string \<Rightarrow> sample_widget filterobj" where
  "server_variant col rc v =
     \<lparr>column = col, renderColumn = rc, className = None, attrs = None, widget = (v, []),
      f_init = (\<lambda>w. w), f_render = (\<lambda>label vals w. w), f_refresh = (\<lambda>vals w. w),
      f_hasValue = (\<lambda>w. fst w \<noteq> []), f_getQuery = (\<lambda>w. []), f_getInitialQuery = (\<lambda>w. []),
      f_getServerQuery = (\<lambda>w. ''q'' @ ''='' @ fst w), f_isRegexMatch = (\<lambda>w. False),
      f_isServerSide = (\<lambda>w. True)\<rparr>"

definition adding_variant :: "nat \<Rightarrow> nat \<Rightarrow> string \<Rightarrow> sample_widget filterobj" where
  "adding_variant col rc v =
     (select_variant col rc v)\<lparr>f_refresh := (\<lambda>vals w. (fst w, snd w @ vals))\<rparr>"

definition initial_of :: "descriptor \<Rightarrow> string" where
  "initial_of d = (case map_of (fparams d) ''initial'' of None \<Rightarrow> [] | Some v \<Rightarrow> v)"

definition sample_builders :: "string \<rightharpoonup> sample_widget builder" where
  "sample_builders =
     [''text'' \<mapsto> (\<lambda>col rc d. text_variant col rc []),
      ''select'' \<mapsto> (\<lambda>col rc d. select_variant col rc (initial_of d)),
      ''server'' \<mapsto> (\<lambda>col rc d. server_variant col rc (initial_of d))]"

definition sample_settings :: grid where
  "sample_settings =
     sample_grid
       [filter_column ''text'' [] ''Name'', plain_column False ''Id'',
        filter_column ''select'' [(''initial'', ''x'')] ''Kind'']
       []"

definition plain_settings :: grid where
  "plain_settings =
     sample_grid [plain_column True ''Name'', plain_column False ''Id'']
       [[''a'', ''1''], [''b'', ''2'']]"

definition unknown_settings :: grid where
  "unknown_settings =
     sample_grid [filter_column ''text'' [] ''Name'', filter_column ''range'' [] ''Age''] []"

text \<open>
  Two columns whose descriptors both name column 1 as their own, with the initial values
  \<^verbatim>\<open>p\<close> and \<^verbatim>\<open>q\<close>; and one column whose descriptor names column 7, which the grid does
  not have.
\<close>

definition doubled_settings :: grid where
  "doubled_settings =
     sample_grid
       [\<lparr>cfilter = Some \<lparr>ftype = ''select'', fcolumn = Some 1, frenderColumn = None,
                          fparams = [(''initial'', ''p'')]\<rparr>,
         bVisible = True, sTitle = ''Name''\<rparr>,
        \<lparr>cfilter = Some \<lparr>ftype = ''select'', fcolumn = Some 1, frenderColumn = None,
                          fparams = [(''initial'', ''q'')]\<rparr>,
         bVisible = True, sTitle = ''Kind''\<rparr>]
       []"

definition outside_settings :: grid where
  "outside_settings =
     sample_grid
       [\<lparr>cfilter = Some \<lparr>ftype = ''select'', fcolumn = Some 7, frenderColumn = None,
                          fparams = [(''initial'', ''p'')]\<rparr>,
         bVisible = True, sTitle = ''Name''\<rparr>]
       []"

text \<open>
  A coordinator after \<^verbatim>\<open>init\<close> whose text filter on column 0 holds \<^verbatim>\<open>a\<close>, already
  applied to the grid.
\<close>

definition stale_state :: "sample_widget Filters" where
  "stale_state =
     \<lparr>tableAPI = (sample_grid [filter_column ''text'' [] ''Name''] [[''a''], [''b'']])
                   \<lparr>searchCols := (\<lambda>c. ([], False, True))(0 := (''a'', True, False)),
                    xhrSubs := 1\<rparr>,
      url = ''/data'',
      filters = [text_variant 0 0 ''a'']\<rparr>"

text \<open>
  A coordinator after \<^verbatim>\<open>init\<close> with a text filter on column 0 whose value has just
  become \<^verbatim>\<open>a\<close>, not yet applied, and a select filter on column 1 whose value \<^verbatim>\<open>x\<close> is
  applied to the grid. \<open>reset_state\<close> is the same with the text filter emptied,
  \<open>hidden_state\<close> the same with a global search that lets no row through, and
  \<open>pending_state\<close> the same after a remote request has failed.
\<close>

definition cascade_state :: "sample_widget Filters" where
  "cascade_state =
     \<lparr>tableAPI = (sample_grid
         [filter_column ''text'' [] ''Name'', filter_column ''select'' [] ''Kind'']
         [[''a'', ''x''], [''a'', ''y''], [''b'', ''x'']])
           \<lparr>searchCols := (\<lambda>c. ([], False, True))(1 := (''x'', False, False)),
            xhrSubs := 1\<rparr>,
      url = ''/data'',
      filters = [text_variant 0 0 ''a'', select_variant 1 1 ''x'']\<rparr>"

definition reset_state :: "sample_widget Filters" where
  "reset_state = cascade_state\<lparr>filters := [text_variant 0 0 [], select_variant 1 1 ''x'']\<rparr>"

definition hidden_state :: "sample_widget Filters" where
  "hidden_state =
     cascade_state\<lparr>tableAPI := (tableAPI cascade_state)\<lparr>rowFilter := (\<lambda>r. False)\<rparr>\<rparr>"

definition pending_state :: "sample_widget Filters" where
  "pending_state = fire_xhr cascade_state"

text \<open>
  The same grid with no search applied yet, for two runs of \<^verbatim>\<open>refreshFilters\<close> in a
  row; in \<open>adding_state\<close> the select filter is one that adds to its options.
\<close>

definition options_state :: "sample_widget Filters" where
  "options_state =
     \<lparr>tableAPI = sample_grid
         [filter_column ''text'' [] ''Name'', filter_column ''select'' [] ''Kind'']
         [[''a'', ''x''], [''a'', ''y''], [''b'', ''x'']],
      url = ''/data'',
      filters = [text_variant 0 0 ''a'', select_variant 1 1 ''x'']\<rparr>"

definition adding_state :: "sample_widget Filters" where
  "adding_state = options_state\<lparr>filters := [adding_variant 1 1 []]\<rparr>"

text \<open>
  Two server-side filters, one holding \<^verbatim>\<open>ann\<close> and one empty, around a client-side
  text filter.
\<close>

definition server_state :: "sample_widget Filters" where
  "server_state =
     \<lparr>tableAPI = sample_grid [] [],
      url = ''/data'',
      filters = [server_variant 0 0 ''ann'', text_variant 1 1 ''b'', server_variant 2 2 []]\<rparr>"

text \<open>
  The coordinator built for \<open>sample_settings\<close>, after the first load has brought one row
  and the grid has fired \<^verbatim>\<open>init\<close>.
\<close>

definition live_state :: "sample_widget Filters" where
  "live_state =
     (case start sample_builders sample_settings [[''a'', ''1'', ''x'']] of
        Inr this \<Rightarrow> this
      | Inl e \<Rightarrow> \<lparr>tableAPI = sample_settings, url = [], filters = []\<rparr>)"

section \<open>Properties of the text-input filter\<close>

text \<open>
  C10. For the text-input filter, \<^verbatim>\<open>reset()\<close> followed by \<^verbatim>\<open>hasValue()\<close> returns
  false, whatever value the input held before: once the element exists, \<^verbatim>\<open>reset\<close>
  returns normally and the filter it leaves reports no value.
\<close>

theorem InputFilter_reset_hasValue:
  "dom_val s = Some v \<Longrightarrow>
     \<exists>s'. InputFilter_reset s = Inr s' \<and> InputFilter_hasValue s' = Inr False"
  by (simp add: InputFilter_reset_def InputFilter_hasValue_def)

theorem InputFilter_reset_hasValue_witness:
  "dom_val \<lparr>dom_val = Some ''foo''\<rparr> = Some ''foo'' \<and>
   InputFilter_hasValue \<lparr>dom_val = Some ''foo''\<rparr> = Inr True \<and>
   (\<exists>s'. InputFilter_reset \<lparr>dom_val = Some ''foo''\<rparr> = Inr s' \<and>
         InputFilter_hasValue s' = Inr False)"
  using InputFilter_reset_hasValue [of "\<lparr>dom_val = Some ''foo''\<rparr>" "''foo''"]
  by (simp add: InputFilter_hasValue_def)

section \<open>Frame lemmas\<close>

lemma log_call_simps [simp]:
  "filters (log_call c this) = filters this"
  "url (log_call c this) = url this"
  "calls (tableAPI (log_call c this)) = calls (tableAPI this) @ [c]"
  "rows (tableAPI (log_call c this)) = rows (tableAPI this)"
  "rowFilter (tableAPI (log_call c this)) = rowFilter (tableAPI this)"
  "matches (tableAPI (log_call c this)) = matches (tableAPI this)"
  "searchCols (tableAPI (log_call c this)) = searchCols (tableAPI this)"
  "aoColumns (tableAPI (log_call c this)) = aoColumns (tableAPI this)"
  "ajaxUrl (tableAPI (log_call c this)) = ajaxUrl (tableAPI this)"
  "initSubs (tableAPI (log_call c this)) = initSubs (tableAPI this)"
  "xhrSubs (tableAPI (log_call c this)) = xhrSubs (tableAPI this)"
  "preDrawOnce (tableAPI (log_call c this)) = preDrawOnce (tableAPI this)"
  "headerRows (tableAPI (log_call c this)) = headerRows (tableAPI this)"
  by (simp_all add: log_call_def)

lemma applyFilter_simps [simp]:
  "filters (applyFilter f this) = filters this"
  "url (applyFilter f this) = url this"
  "calls (tableAPI (applyFilter f this)) =
     calls (tableAPI this) @ [Search (column f) (getQuery f) (isRegexMatch f) False]"
  "rows (tableAPI (applyFilter f this)) = rows (tableAPI this)"
  "rowFilter (tableAPI (applyFilter f this)) = rowFilter (tableAPI this)"
  "matches (tableAPI (applyFilter f this)) = matches (tableAPI this)"
  "searchCols (tableAPI (applyFilter f this)) =
     apply_search (length (aoColumns (tableAPI this))) (searchCols (tableAPI this)) f"
  "aoColumns (tableAPI (applyFilter f this)) = aoColumns (tableAPI this)"
  "ajaxUrl (tableAPI (applyFilter f this)) = ajaxUrl (tableAPI this)"
  "initSubs (tableAPI (applyFilter f this)) = initSubs (tableAPI this)"
  "xhrSubs (tableAPI (applyFilter f this)) = xhrSubs (tableAPI this)"
  "preDrawOnce (tableAPI (applyFilter f this)) = preDrawOnce (tableAPI this)"
  "headerRows (tableAPI (applyFilter f this)) = headerRows (tableAPI this)"
  by (simp_all add: applyFilter_def api_search_def apply_search_def set_search_def)

lemma refresh_simps [simp]:
  "column (refresh vals f) = column f"
  "renderColumn (refresh vals f) = renderColumn f"
  "f_refresh (refresh vals f) = f_refresh f"
  "f_getQuery (refresh vals f) = f_getQuery f"
  "f_isRegexMatch (refresh vals f) = f_isRegexMatch f"
  "f_hasValue (refresh vals f) = f_hasValue f"
  "widget (refresh vals f) = f_refresh f vals (widget f)"
  by (simp_all add: refresh_def)

lemma init_simps [simp]:
  "column (init f) = column f"
  "renderColumn (init f) = renderColumn f"
  by (simp_all add: init_def)

lemma same_data_refl [simp]: "same_data g g"
  by (simp add: same_data_def)

lemma same_data_simps [simp]:
  "same_data (tableAPI (log_call c this)) g = same_data (tableAPI this) g"
  "same_data (tableAPI (applyFilter f this)) g = same_data (tableAPI this) g"
  "same_data (tableAPI (this\<lparr>filters := fs\<rparr>)) g = same_data (tableAPI this) g"
  by (simp_all add: same_data_def)

lemma column_values_same:
  "same_data g' g \<Longrightarrow> column_values g' c = column_values g c"
  by (simp add: same_data_def column_values_def cells_render_def)

lemma displayed_values_same:
  "same_data g' g \<Longrightarrow> displayed_values g' \<sigma> c = displayed_values g \<sigma> c"
  by (simp add: same_data_def displayed_values_def cells_render_def row_passing_def [abs_def]
      passes_def [abs_def])

lemma getColumnData_values: "getColumnData c this = column_values (tableAPI this) c"
  by (simp add: getColumnData_def column_values_def)

lemma getFilteredColumnData_values:
  "getFilteredColumnData c this = displayed_values (tableAPI this) (searchCols (tableAPI this)) c"
  by (simp add: getFilteredColumnData_def displayed_values_def)

text \<open>Positions of a list that starts with one more element.\<close>

lemma positions_Cons:
  "map ((+) k) (filter (\<lambda>j. P ((f # rest) ! j)) [0..<Suc (length rest)])
   = (if P f then [k] else [])
     @ map (\<lambda>j. Suc (k + j)) (filter (\<lambda>j. P (rest ! j)) [0..<length rest])"
proof -
  have "[0..<Suc (length rest)] = 0 # map Suc [0..<length rest]"
    by (simp add: upt_conv_Cons map_Suc_upt del: upt_Suc)
  then show ?thesis
    by (simp add: filter_map comp_def del: upt_Suc)
qed

lemma forEach_append:
  "forEach body (js @ ks) this =
     (case forEach body js this of Inl e \<Rightarrow> Inl e | Inr this' \<Rightarrow> forEach body ks this')"
  by (induction js arbitrary: this) (simp_all split: sum.splits)

text \<open>
  The loop over positions is the loop told by the list of filters, for an accessor that
  reads the grid's data and search state only.
\<close>

lemma forEach_cascade:
  assumes "\<And>s c. same_data (tableAPI s) g \<Longrightarrow> accessor c s = V (searchCols (tableAPI s)) c"
    and "same_data (tableAPI this) g" and "filters this = pre @ rest"
  shows "forEach (refresh_step accessor)
           (map (\<lambda>j. length pre + j) (filter (\<lambda>j. P (rest ! j)) [0..<length rest])) this
         = (case cascade V (length (aoColumns g)) P (searchCols (tableAPI this)) rest of
              Inl e \<Rightarrow> Inl e
            | Inr (fs', \<sigma>', cs) \<Rightarrow>
                Inr (this\<lparr>filters := pre @ fs',
                         tableAPI := (tableAPI this)
                           \<lparr>searchCols := \<sigma>', calls := calls (tableAPI this) @ cs\<rparr>\<rparr>))"
  using assms(2,3)
proof (induction rest arbitrary: pre this)
  case Nil
  then show ?case by simp
next
  case (Cons f rest)
  have n: "length (aoColumns (tableAPI this)) = length (aoColumns g)"
    using Cons.prems(1) by (simp add: same_data_def)
  show ?case
  proof (cases "P f")
    case False
    have fs: "filters this = (pre @ [f]) @ rest" using Cons.prems(2) by simp
    show ?thesis
      using Cons.IH [OF Cons.prems(1) fs] False
      by (simp add: positions_Cons del: upt_Suc split: sum.splits)
  next
    case True
    have at: "filters this ! length pre = f" using Cons.prems(2) by simp
    have acc: "accessor (column f) this = V (searchCols (tableAPI this)) (column f)"
      using assms(1) Cons.prems(1) by simp
    show ?thesis
    proof (cases "V (searchCols (tableAPI this)) (column f)")
      case (Inl e)
      then show ?thesis
        using True at acc
        by (simp add: positions_Cons refresh_step_def Let_def del: upt_Suc)
    next
      case (Inr vals)
      define s1 where "s1 = applyFilter (refresh vals f)
                     (log_call (FRefresh (column f) vals)
                        (this\<lparr>filters := (filters this)[length pre := refresh vals f]\<rparr>))"
      have step: "refresh_step accessor (length pre) this = Inr s1"
        using at acc Inr by (simp add: refresh_step_def Let_def s1_def)
      have sd: "same_data (tableAPI s1) g" using Cons.prems(1) by (simp add: s1_def)
      have fs: "filters s1 = (pre @ [refresh vals f]) @ rest"
        using Cons.prems(2) by (simp add: s1_def)
      have sc: "searchCols (tableAPI s1) =
                  set_search (length (aoColumns g)) (searchCols (tableAPI this)) (column f)
                    (getQuery (refresh vals f), isRegexMatch (refresh vals f), False)"
        by (simp add: s1_def apply_search_def n)
      have cl: "calls (tableAPI s1) = calls (tableAPI this) @
                  [FRefresh (column f) vals,
                   Search (column f) (getQuery (refresh vals f)) (isRegexMatch (refresh vals f)) False]"
        by (simp add: s1_def)
      have upd: "s1\<lparr>filters := pre @ refresh vals f # fs',
                    tableAPI := (tableAPI s1)\<lparr>searchCols := \<sigma>', calls := calls (tableAPI s1) @ cs\<rparr>\<rparr>
               = this\<lparr>filters := pre @ refresh vals f # fs',
                    tableAPI := (tableAPI this)\<lparr>searchCols := \<sigma>',
                      calls := calls (tableAPI this) @
                        FRefresh (column f) vals
                         # Search (column f) (getQuery (refresh vals f))
                             (isRegexMatch (refresh vals f)) False # cs\<rparr>\<rparr>" for fs' \<sigma>' cs
        by (simp add: s1_def applyFilter_def api_search_def log_call_def)
      show ?thesis
        using Cons.IH [OF sd fs] True Inr step
        by (simp add: positions_Cons sc upd del: upt_Suc split: sum.splits)
    qed
  qed
qed

lemma js_error_only [simp]: "(e :: js_error) = TypeError"
  by (cases e) simp

lemma cascade_unfiltered:
  "cascade (\<lambda>\<sigma>. column_values g) n (\<lambda>f. True) \<sigma> fs =
     (if list_all (readable g) fs
      then Inr (map (refreshed g) fs, foldl (apply_search n) \<sigma> (map (refreshed g) fs),
                concat (map (refresh_calls g) fs))
      else Inl TypeError)"
proof (induction fs arbitrary: \<sigma>)
  case Nil
  show ?case by simp
next
  case (Cons f fs)
  show ?case
  proof (cases "column_values g (column f)")
    case (Inl e)
    then have "\<not> readable g f" by (simp add: readable_def)
    then show ?thesis using Inl by simp
  next
    case (Inr vals)
    have f: "readable g f" "refreshed g f = refresh vals f"
      "refresh_calls g f =
         [FRefresh (column f) vals,
          Search (column f) (getQuery (refresh vals f)) (isRegexMatch (refresh vals f)) False]"
      "apply_search n \<sigma> (refresh vals f) =
         set_search n \<sigma> (column f)
           (getQuery (refresh vals f), isRegexMatch (refresh vals f), False)"
      using Inr by (simp_all add: readable_def refreshed_def refresh_calls_def apply_search_def)
    show ?thesis
      using Inr by (simp add: Cons.IH f)
  qed
qed

lemma upt_positions: "[0..<n] = map ((+) 0) (filter (\<lambda>j. (\<lambda>f. True) (fs ! j)) [0..<n])"
  by (simp add: map_idI)

lemma refresh_each_eq:
  "refresh_each this =
     (if list_all (readable (tableAPI this)) (filters this)
      then Inr (this\<lparr>filters := map (refreshed (tableAPI this)) (filters this),
                    tableAPI := (tableAPI this)
                      \<lparr>searchCols :=
                         foldl (apply_search (length (aoColumns (tableAPI this))))
                           (searchCols (tableAPI this))
                           (map (refreshed (tableAPI this)) (filters this)),
                       calls := calls (tableAPI this)
                         @ concat (map (refresh_calls (tableAPI this)) (filters this))\<rparr>\<rparr>)
      else Inl TypeError)"
proof -
  have acc: "\<And>s c. same_data (tableAPI s) (tableAPI this) \<Longrightarrow>
       getColumnData c s = (\<lambda>\<sigma>. column_values (tableAPI this)) (searchCols (tableAPI s)) c"
    by (simp add: getColumnData_values column_values_same)
  have fs: "filters this = [] @ filters this" by simp
  have "refresh_each this =
      forEach (refresh_step getColumnData)
        (map (\<lambda>j. length ([] :: 'a filterobj list) + j)
           (filter (\<lambda>j. (\<lambda>f. True) (filters this ! j)) [0..<length (filters this)])) this"
    by (simp add: refresh_each_def map_idI)
  also have "\<dots> =
      (case cascade (\<lambda>\<sigma>. column_values (tableAPI this)) (length (aoColumns (tableAPI this)))
              (\<lambda>f. True) (searchCols (tableAPI this)) (filters this) of
         Inl e \<Rightarrow> Inl e
       | Inr (fs', \<sigma>', cs) \<Rightarrow>
           Inr (this\<lparr>filters := [] @ fs',
                    tableAPI := (tableAPI this)
                      \<lparr>searchCols := \<sigma>', calls := calls (tableAPI this) @ cs\<rparr>\<rparr>))"
    by (rule forEach_cascade [OF acc _ fs]) simp_all
  finally show ?thesis
    by (simp add: cascade_unfiltered)
qed

lemma refresh_each_frame:
  assumes "refresh_each this = Inr this'"
  shows "url this' = url this" and "same_data (tableAPI this') (tableAPI this)"
    and "rows (tableAPI this') = rows (tableAPI this)"
    and "aoColumns (tableAPI this') = aoColumns (tableAPI this)"
    and "xhrSubs (tableAPI this') = xhrSubs (tableAPI this)"
    and "initSubs (tableAPI this') = initSubs (tableAPI this)"
    and "preDrawOnce (tableAPI this') = preDrawOnce (tableAPI this)"
    and "length (filters this') = length (filters this)"
    and "list_all (readable (tableAPI this)) (filters this)"
  using assms by (auto simp add: refresh_each_eq same_data_def split: if_splits)

lemma cascade_shape:
  "cascade V n P \<sigma> fs = Inr (fs', \<sigma>', cs) \<Longrightarrow>
     map kind_of cs =
       concat (map (\<lambda>f. [Refreshed (column f), Applied (column f)]) (filter P fs)) \<and>
     length fs' = length fs \<and> map column fs' = map column fs \<and>
     (\<forall>j < length fs. \<not> P (fs ! j) \<longrightarrow> fs' ! j = fs ! j) \<and>
     Draw \<notin> set cs"
proof (induction fs arbitrary: \<sigma> fs' \<sigma>' cs)
  case Nil
  then show ?case by simp
next
  case (Cons f fs)
  show ?case
  proof (cases "P f")
    case False
    with Cons.prems obtain gs where
      rec: "cascade V n P \<sigma> fs = Inr (gs, \<sigma>', cs)" and fs': "fs' = f # gs"
      by (auto split: sum.splits)
    from Cons.IH [OF rec] show ?thesis
      using False fs' by (auto simp add: nth_Cons split: nat.splits)
  next
    case True
    with Cons.prems obtain vals gs ds where
      v: "V \<sigma> (column f) = Inr vals"
      and rec: "cascade V n P (set_search n \<sigma> (column f)
                  (getQuery (refresh vals f), isRegexMatch (refresh vals f), False)) fs
                = Inr (gs, \<sigma>', ds)"
      and fs': "fs' = refresh vals f # gs"
      and cs: "cs = FRefresh (column f) vals
                 # Search (column f) (getQuery (refresh vals f)) (isRegexMatch (refresh vals f)) False
                 # ds"
      by (auto split: sum.splits)
    from Cons.IH [OF rec] show ?thesis
      using True fs' cs by (auto simp add: nth_Cons split: nat.splits)
  qed
qed

lemma cascade_payloads:
  "cascade (displayed_values g) (length (aoColumns g)) P \<sigma> fs = Inr (fs', \<sigma>', cs) \<Longrightarrow>
     refresh_payloads cs = cascade_values g \<sigma> (filter P fs)"
proof (induction fs arbitrary: \<sigma> fs' \<sigma>' cs)
  case Nil
  then show ?case by simp
next
  case (Cons f fs)
  show ?case
  proof (cases "P f")
    case False
    with Cons.prems obtain gs where
      rec: "cascade (displayed_values g) (length (aoColumns g)) P \<sigma> fs = Inr (gs, \<sigma>', cs)"
      by (auto split: sum.splits)
    from Cons.IH [OF rec] show ?thesis using False by simp
  next
    case True
    with Cons.prems obtain vals gs ds where
      v: "displayed_values g \<sigma> (column f) = Inr vals"
      and rec: "cascade (displayed_values g) (length (aoColumns g)) P
                  (set_search (length (aoColumns g)) \<sigma> (column f)
                  (getQuery (refresh vals f), isRegexMatch (refresh vals f), False)) fs
                = Inr (gs, \<sigma>', ds)"
      and cs: "cs = FRefresh (column f) vals
                 # Search (column f) (getQuery (refresh vals f)) (isRegexMatch (refresh vals f)) False
                 # ds"
      by (auto split: sum.splits)
    from Cons.IH [OF rec] show ?thesis using True v cs by simp
  qed
qed

text \<open>Redraws.\<close>

lemma redraw_idle: "preDrawOnce (tableAPI this) = 0 \<Longrightarrow> redraw this = Inr this"
  by (simp add: redraw_def)

lemma drawTable_idle:
  "preDrawOnce (tableAPI this) = 0 \<Longrightarrow> drawTable this = Inr (log_call Draw this)"
  by (simp add: drawTable_def redraw_idle)

lemma refreshFilters_idle:
  "preDrawOnce (tableAPI this) = 0 \<Longrightarrow>
   refreshFilters this =
     (case refresh_each this of Inl e \<Rightarrow> Inl e | Inr this' \<Rightarrow> Inr (log_call Draw this'))"
  by (auto simp add: refreshFilters_def drawTable_idle refresh_each_frame split: sum.splits)

text \<open>
  The handlers that a redraw runs are runs of \<^verbatim>\<open>refreshFilters\<close> with no handler bound.
\<close>

lemma run_handlers_refreshFilters:
  "preDrawOnce (tableAPI this) = 0 \<Longrightarrow> run_handlers n this = repeat n refreshFilters this"
proof (induction n arbitrary: this)
  case 0
  show ?case by simp
next
  case (Suc n)
  show ?case
  proof (cases "refresh_each this")
    case (Inl e)
    then show ?thesis using Suc.prems by (simp add: refreshFilters_idle)
  next
    case (Inr s)
    have "preDrawOnce (tableAPI (log_call Draw s)) = 0"
      using Suc.prems refresh_each_frame(7) [OF Inr] by simp
    from Suc.IH [OF this] show ?thesis
      using Inr Suc.prems by (simp add: refreshFilters_idle)
  qed
qed

lemmas sample_defs = cascade_state_def reset_state_def hidden_state_def pending_state_def
  stale_state_def options_state_def adding_state_def server_state_def
  sample_grid_def plain_column_def filter_column_def
  text_variant_def select_variant_def server_variant_def adding_variant_def

lemmas grid_defs = cells_render_def unique_def row_passing_def passes_def cell_def
  enumerate_eq_zip api_search_def api_one_preDraw_def log_call_def

lemmas run_defs = onClientFilterChange_def drawTable_def redraw_def refreshFilters_def
  refresh_each_def refresh_step_def getColumnData_def getFilteredColumnData_def
  applyFilter_def refresh_def getQuery_def isRegexMatch_def hasValue_def
  fire_xhr_def xhr_callback_def Let_def

section \<open>The refresh loop of refreshFilters\<close>

text \<open>
  C1. \<^verbatim>\<open>refreshFilters\<close> is documented as refreshing the filters from the currently
  displayed data of each column, and the cascade of \<^verbatim>\<open>onClientFilterChange\<close> reads
  \<^verbatim>\<open>getFilteredColumnData\<close>; \<^verbatim>\<open>refreshFilters\<close> itself reads \<^verbatim>\<open>getColumnData\<close>. In
  \<open>stale_state\<close> the text filter on column 0 holds \<^verbatim>\<open>a\<close>, which is applied, so the grid
  displays the row \<^verbatim>\<open>a\<close> alone and the filtered distinct values of the column are
  \<^verbatim>\<open>a\<close>. \<^verbatim>\<open>refreshFilters\<close> hands the filter both \<^verbatim>\<open>a\<close> and \<^verbatim>\<open>b\<close>, then applies
  the filter and redraws once.
\<close>

theorem refreshFilters_hidden_values:
  "map_sum id (\<lambda>s. calls (tableAPI s)) (refreshFilters stale_state) =
     Inr [FRefresh 0 [''a'', ''b''], Search 0 ''a'' True False, Draw] \<and>
   getFilteredColumnData 0 stale_state = Inr [''a''] \<and>
   getColumnData 0 stale_state = Inr [''a'', ''b'']"
  by (simp add: sample_defs run_defs grid_defs)

lemma refreshFilters_run:
  assumes "preDrawOnce (tableAPI this) = 0"
  shows "refreshFilters this =
     (if list_all (readable (tableAPI this)) (filters this)
      then Inr (this\<lparr>filters := map (refreshed (tableAPI this)) (filters this),
                    tableAPI := (tableAPI this)
                      \<lparr>searchCols :=
                         foldl (apply_search (length (aoColumns (tableAPI this))))
                           (searchCols (tableAPI this))
                           (map (refreshed (tableAPI this)) (filters this)),
                       calls := calls (tableAPI this)
                         @ concat (map (refresh_calls (tableAPI this)) (filters this))
                         @ [Draw]\<rparr>\<rparr>)
      else Inl TypeError)"
  using assms by (simp add: refreshFilters_idle refresh_each_eq log_call_def)

section \<open>The cascade of onClientFilterChange\<close>

lemma client_loop:
  assumes "i < length (filters this)"
  shows "forEach (refresh_step getFilteredColumnData)
           (if hasValue (filters this ! i)
            then filter (\<lambda>j. column (filters (applyFilter (filters this ! i) this) ! j)
                              \<noteq> column (filters this ! i))
                   [0..<length (filters (applyFilter (filters this ! i) this))]
            else [0..<length (filters (applyFilter (filters this ! i) this))])
           (applyFilter (filters this ! i) this)
         = (case client_cascade i this of
              Inl e \<Rightarrow> Inl e
            | Inr (fs', \<sigma>', cs) \<Rightarrow>
                Inr (this\<lparr>filters := fs',
                         tableAPI := (tableAPI this)
                           \<lparr>searchCols := \<sigma>',
                            calls := calls (tableAPI this)
                              @ Search (column (filters this ! i)) (getQuery (filters this ! i))
                                  (isRegexMatch (filters this ! i)) False # cs\<rparr>\<rparr>))"
proof -
  let ?changed = "filters this ! i"
  let ?s1 = "applyFilter ?changed this"
  let ?P = "in_refresh_set ?changed"
  have acc: "\<And>s c. same_data (tableAPI s) (tableAPI this) \<Longrightarrow>
       getFilteredColumnData c s = displayed_values (tableAPI this) (searchCols (tableAPI s)) c"
    by (simp add: getFilteredColumnData_values displayed_values_same)
  have sd: "same_data (tableAPI ?s1) (tableAPI this)" by simp
  have fs: "filters ?s1 = [] @ filters this" by simp
  have js: "(if hasValue ?changed
            then filter (\<lambda>j. column (filters ?s1 ! j) \<noteq> column ?changed) [0..<length (filters ?s1)]
            else [0..<length (filters ?s1)])
       = map (\<lambda>j. length ([] :: 'a filterobj list) + j)
           (filter (\<lambda>j. ?P (filters this ! j)) [0..<length (filters this)])"
    by (simp add: in_refresh_set_def map_idI)
  have upd: "?s1\<lparr>filters := [] @ fs',
                tableAPI := (tableAPI ?s1)\<lparr>searchCols := \<sigma>', calls := calls (tableAPI ?s1) @ cs\<rparr>\<rparr>
           = this\<lparr>filters := fs',
                tableAPI := (tableAPI this)\<lparr>searchCols := \<sigma>',
                  calls := calls (tableAPI this)
                    @ Search (column ?changed) (getQuery ?changed) (isRegexMatch ?changed) False
                      # cs\<rparr>\<rparr>" for fs' \<sigma>' cs
    by (simp add: applyFilter_def api_search_def)
  have main: "forEach (refresh_step getFilteredColumnData)
       (map (\<lambda>j. length ([] :: 'a filterobj list) + j)
           (filter (\<lambda>j. ?P (filters this ! j)) [0..<length (filters this)])) ?s1
     = (case cascade (displayed_values (tableAPI this)) (length (aoColumns (tableAPI this))) ?P
              (searchCols (tableAPI ?s1)) (filters this) of
          Inl e \<Rightarrow> Inl e
        | Inr (fs', \<sigma>', cs) \<Rightarrow>
            Inr (?s1\<lparr>filters := [] @ fs',
                     tableAPI := (tableAPI ?s1)
                       \<lparr>searchCols := \<sigma>', calls := calls (tableAPI ?s1) @ cs\<rparr>\<rparr>))"
    by (rule forEach_cascade [where g = "tableAPI this"]) (simp_all add: acc)
  show ?thesis
    unfolding js main
    by (simp add: client_cascade_def upd split: sum.splits)
qed


lemma run_handlers_calls:
  "run_handlers n this = Inr this' \<Longrightarrow>
     \<exists>tail. calls (tableAPI this') = calls (tableAPI this) @ tail"
proof (induction n arbitrary: this)
  case 0
  then show ?case by simp
next
  case (Suc n)
  from Suc.prems obtain s where
    s: "refresh_each this = Inr s" and rest: "run_handlers n (log_call Draw s) = Inr this'"
    by (auto split: sum.splits)
  from Suc.IH [OF rest] obtain tail where
    "calls (tableAPI this') = calls (tableAPI (log_call Draw s)) @ tail" by blast
  moreover have "\<exists>cs. calls (tableAPI s) = calls (tableAPI this) @ cs"
    using s by (auto simp add: refresh_each_eq split: if_splits)
  ultimately show ?case by auto
qed

lemma drawTable_calls:
  assumes "drawTable this = Inr this'"
  shows "\<exists>tail. calls (tableAPI this') = calls (tableAPI this) @ Draw # tail"
proof -
  let ?s = "(log_call Draw this)\<lparr>tableAPI := (tableAPI (log_call Draw this))\<lparr>preDrawOnce := 0\<rparr>\<rparr>"
  have "run_handlers (preDrawOnce (tableAPI (log_call Draw this))) ?s = Inr this'"
    using assms by (simp add: drawTable_def redraw_def)
  from run_handlers_calls [OF this] show ?thesis by simp
qed





text \<open>
  C2. When \<^verbatim>\<open>onClientFilterChange\<close> returns, its calls are the search of the changed
  filter's column, the calls of the refresh loop, and then the \<^verbatim>\<open>draw\<close>. The values that
  the loop hands to the filters of the refresh set are \<open>cascade_values\<close>: for each filter,
  in collection order, the distinct rendered values of its column over the rows that the
  grid displays at that point of the loop. Those are the rows that pass the global search,
  the plug-ins and every column search in force, the search on the filter's own column
  included.
\<close>

theorem onClientFilterChange_values:
  assumes "onClientFilterChange i this = Inr this'"
  shows "\<exists>cs tail.
     calls (tableAPI this') =
       calls (tableAPI this)
         @ Search (column (filters this ! i)) (getQuery (filters this ! i))
             (isRegexMatch (filters this ! i)) False
         # cs @ Draw # tail \<and>
     Draw \<notin> set cs \<and>
     refresh_payloads cs =
       cascade_values (tableAPI this)
         (apply_search (length (aoColumns (tableAPI this))) (searchCols (tableAPI this))
            (filters this ! i))
         (filter (in_refresh_set (filters this ! i)) (filters this))"
proof -
  have i: "i < length (filters this)"
    using assms by (auto simp add: onClientFilterChange_def split: if_splits)
  let ?first = "Search (column (filters this ! i)) (getQuery (filters this ! i))
                  (isRegexMatch (filters this ! i)) False"
  from assms i obtain fs' \<sigma>' cs where
    c: "client_cascade i this = Inr (fs', \<sigma>', cs)"
    and d: "drawTable (this\<lparr>filters := fs',
                 tableAPI := (tableAPI this)
                   \<lparr>searchCols := \<sigma>', calls := calls (tableAPI this) @ ?first # cs\<rparr>\<rparr>) = Inr this'"
    by (auto simp add: onClientFilterChange_def [of i this] Let_def client_loop [OF i]
        split: sum.splits)
  from drawTable_calls [OF d] obtain tail where
    t: "calls (tableAPI this') = calls (tableAPI this) @ ?first # cs @ Draw # tail"
    by auto
  have "Draw \<notin> set cs"
    using cascade_shape [OF c [unfolded client_cascade_def]] by simp
  moreover have "refresh_payloads cs =
       cascade_values (tableAPI this)
         (apply_search (length (aoColumns (tableAPI this))) (searchCols (tableAPI this))
            (filters this ! i))
         (filter (in_refresh_set (filters this ! i)) (filters this))"
    using cascade_payloads [OF c [unfolded client_cascade_def]] by simp
  ultimately show ?thesis using t by blast
qed

text \<open>
  The handler on \<open>cascade_state\<close>, and on \<open>hidden_state\<close>, where the global search lets no
  row through and the select filter is handed no value at all.
\<close>

theorem onClientFilterChange_values_witness:
  "map_sum id (\<lambda>s. calls (tableAPI s)) (onClientFilterChange 0 cascade_state) =
     Inr [Search 0 ''a'' True False, FRefresh 1 [''x''], Search 1 ''x'' False False, Draw] \<and>
   (\<exists>cs tail.
      [Search 0 ''a'' True False, FRefresh 1 [''x''], Search 1 ''x'' False False, Draw] =
        Search 0 ''a'' True False # cs @ Draw # tail \<and>
      Draw \<notin> set cs \<and> refresh_payloads cs = [(1, [''x''])]) \<and>
   map_sum id (\<lambda>s. calls (tableAPI s)) (onClientFilterChange 0 hidden_state) =
     Inr [Search 0 ''a'' True False, FRefresh 1 [], Search 1 ''x'' False False, Draw] \<and>
   (\<exists>cs tail.
      [Search 0 ''a'' True False, FRefresh 1 [], Search 1 ''x'' False False, Draw] =
        Search 0 ''a'' True False # cs @ Draw # tail \<and>
      Draw \<notin> set cs \<and> refresh_payloads cs = [(1, [])])"
proof -
  define s1 where "s1 = (case onClientFilterChange 0 cascade_state of Inr s \<Rightarrow> s | Inl e \<Rightarrow> cascade_state)"
  define s2 where "s2 = (case onClientFilterChange 0 hidden_state of Inr s \<Rightarrow> s | Inl e \<Rightarrow> hidden_state)"
  have r1: "map_sum id (\<lambda>s. calls (tableAPI s)) (onClientFilterChange 0 cascade_state) =
     Inr [Search 0 ''a'' True False, FRefresh 1 [''x''], Search 1 ''x'' False False, Draw]"
    by (simp add: sample_defs run_defs grid_defs)
  have r2: "map_sum id (\<lambda>s. calls (tableAPI s)) (onClientFilterChange 0 hidden_state) =
     Inr [Search 0 ''a'' True False, FRefresh 1 [], Search 1 ''x'' False False, Draw]"
    by (simp add: sample_defs run_defs grid_defs)
  have e1: "onClientFilterChange 0 cascade_state = Inr s1"
    using r1 by (auto simp add: s1_def split: sum.splits)
  have e2: "onClientFilterChange 0 hidden_state = Inr s2"
    using r2 by (auto simp add: s2_def split: sum.splits)
  have c1: "calls (tableAPI s1) =
     [Search 0 ''a'' True False, FRefresh 1 [''x''], Search 1 ''x'' False False, Draw]"
    using r1 e1 by simp
  have c2: "calls (tableAPI s2) =
     [Search 0 ''a'' True False, FRefresh 1 [], Search 1 ''x'' False False, Draw]"
    using r2 e2 by simp
  have v1: "cascade_values (tableAPI cascade_state)
         (apply_search (length (aoColumns (tableAPI cascade_state)))
            (searchCols (tableAPI cascade_state)) (filters cascade_state ! 0))
         (filter (in_refresh_set (filters cascade_state ! 0)) (filters cascade_state))
       = [(1, [''x''])]"
    by (simp add: sample_defs in_refresh_set_def displayed_values_def
      apply_search_def set_search_def grid_defs refresh_def getQuery_def isRegexMatch_def
      hasValue_def)
  have v2: "cascade_values (tableAPI hidden_state)
         (apply_search (length (aoColumns (tableAPI hidden_state)))
            (searchCols (tableAPI hidden_state)) (filters hidden_state ! 0))
         (filter (in_refresh_set (filters hidden_state ! 0)) (filters hidden_state))
       = [(1, [])]"
    by (simp add: sample_defs in_refresh_set_def displayed_values_def
      apply_search_def set_search_def grid_defs refresh_def getQuery_def isRegexMatch_def
      hasValue_def)
  have h1: "calls (tableAPI cascade_state) = []" "calls (tableAPI hidden_state) = []"
    "column (filters cascade_state ! 0) = 0" "getQuery (filters cascade_state ! 0) = ''a''"
    "isRegexMatch (filters cascade_state ! 0) = True"
    "column (filters hidden_state ! 0) = 0" "getQuery (filters hidden_state ! 0) = ''a''"
    "isRegexMatch (filters hidden_state ! 0) = True"
    by (simp_all add: sample_defs getQuery_def isRegexMatch_def)
  note w1 = onClientFilterChange_values [OF e1, unfolded c1 v1 h1 append_Nil]
  note w2 = onClientFilterChange_values [OF e2, unfolded c2 v2 h1 append_Nil]
  show ?thesis
    using r1 r2 w1 w2 by blast
qed

text \<open>
  In \<open>cascade_state\<close> the select filter on column 1 is handed \<^verbatim>\<open>x\<close> alone: its own
  search \<^verbatim>\<open>x\<close> is part of the row selection. With the search of column 1 left out, the
  rows that pass the other predicates hold \<^verbatim>\<open>x\<close> and \<^verbatim>\<open>y\<close>.
\<close>

theorem onClientFilterChange_own_predicate_counterexample:
  "map_sum id (\<lambda>s. calls (tableAPI s)) (onClientFilterChange 0 cascade_state) =
     Inr [Search 0 ''a'' True False, FRefresh 1 [''x''], Search 1 ''x'' False False, Draw] \<and>
   others_values (tableAPI cascade_state)
     ((searchCols (tableAPI cascade_state))(0 := (''a'', True, False))) 1 = [''x'', ''y'']"
  by (simp add: sample_defs run_defs grid_defs others_values_def)

section \<open>Fetches and redraws\<close>

lemma refresh_calls_count:
  "list_all (readable g) fs \<Longrightarrow>
     length (filter is_refresh (concat (map (refresh_calls g) fs))) = length fs \<and>
     count_list (concat (map (refresh_calls g) fs)) Draw = 0"
  by (induction fs) (auto simp add: refresh_calls_def readable_def split: sum.splits)

lemma xhr_callbacks:
  "preDrawOnce (tableAPI ((xhr_callback ^^ n) this)) = preDrawOnce (tableAPI this) + n \<and>
   xhrSubs (tableAPI ((xhr_callback ^^ n) this)) = xhrSubs (tableAPI this) \<and>
   searchCols (tableAPI ((xhr_callback ^^ n) this)) = searchCols (tableAPI this) \<and>
   filters ((xhr_callback ^^ n) this) = filters this \<and>
   count_list (calls (tableAPI ((xhr_callback ^^ n) this))) Draw
     = count_list (calls (tableAPI this)) Draw \<and>
   length (filter is_refresh (calls (tableAPI ((xhr_callback ^^ n) this))))
     = length (filter is_refresh (calls (tableAPI this)))"
  by (induction n) (simp_all add: xhr_callback_def api_one_preDraw_def)

lemma fire_xhr_effect:
  "preDrawOnce (tableAPI (fire_xhr this)) = preDrawOnce (tableAPI this) + xhrSubs (tableAPI this)"
  "xhrSubs (tableAPI (fire_xhr this)) = xhrSubs (tableAPI this)"
  "searchCols (tableAPI (fire_xhr this)) = searchCols (tableAPI this)"
  "filters (fire_xhr this) = filters this"
  "count_list (calls (tableAPI (fire_xhr this))) Draw = count_list (calls (tableAPI this)) Draw"
  "length (filter is_refresh (calls (tableAPI (fire_xhr this))))
     = length (filter is_refresh (calls (tableAPI this)))"
  using xhr_callbacks [of "xhrSubs (tableAPI this)" this] by (simp_all add: fire_xhr_def)


lemma refresh_each_counts:
  assumes "refresh_each this = Inr this'"
  shows "count_list (calls (tableAPI this')) Draw = count_list (calls (tableAPI this)) Draw"
    and "length (filter is_refresh (calls (tableAPI this')))
           = length (filter is_refresh (calls (tableAPI this))) + length (filters this)"
  using assms refresh_calls_count [of "tableAPI this" "filters this"]
  by (auto simp add: refresh_each_eq split: if_splits)

lemma run_handlers_counts:
  "run_handlers n this = Inr this' \<Longrightarrow>
     count_list (calls (tableAPI this')) Draw = count_list (calls (tableAPI this)) Draw + n \<and>
     length (filter is_refresh (calls (tableAPI this')))
       = length (filter is_refresh (calls (tableAPI this))) + n * length (filters this) \<and>
     preDrawOnce (tableAPI this') = preDrawOnce (tableAPI this) \<and>
     xhrSubs (tableAPI this') = xhrSubs (tableAPI this) \<and>
     length (filters this') = length (filters this)"
proof (induction n arbitrary: this)
  case 0
  then show ?case by simp
next
  case (Suc n)
  from Suc.prems obtain s where
    s: "refresh_each this = Inr s" and rest: "run_handlers n (log_call Draw s) = Inr this'"
    by (auto split: sum.splits)
  show ?case
    using Suc.IH [OF rest] refresh_each_counts [OF s] refresh_each_frame [OF s]
    by simp
qed






lemmas build_defs = live_state_def start_def new_Filters_def init_all_def init_def
  applyInitialFilter_def getInitialQuery_def api_on_init_def api_on_xhr_def
  sample_builders_def sample_settings_def initial_of_def
  fetch_complete_def load_def fire_init_def onDataTableInit_def renderFilters_def
  renderFilter_def registerAjaxListener_def setupHeaderRow_def header_html_def render_def
  isServerSide_def


lemma live_state_calls:
  "calls (tableAPI live_state) =
     [FInit 0, FInit 2, Search 0 [] True False, Search 2 ''x'' False False,
      On ''init'', HeaderAppend 2, On ''xhr'', FRegister 0 ClientRoute,
      FRender 0 0 [''a''], FRegister 2 ClientRoute, FRender 2 1 [''x'']]"
  by (simp add: build_defs sample_defs run_defs grid_defs)





section \<open>Refreshing twice\<close>

lemma foldl_apply_search_at:
  "foldl (apply_search n) \<sigma> fs c =
     (case find (\<lambda>f. column f = c) (rev fs) of
        None \<Rightarrow> \<sigma> c
      | Some f \<Rightarrow> if c < n then (getQuery f, isRegexMatch f, False) else \<sigma> c)"
proof (induction fs rule: rev_induct)
  case Nil
  show ?case by simp
next
  case (snoc f fs)
  then show ?case
    by (auto simp add: apply_search_def set_search_def split: option.splits)
qed

lemma foldl_apply_search_twice:
  "foldl (apply_search n) (foldl (apply_search n) \<sigma> fs) fs = foldl (apply_search n) \<sigma> fs"
proof
  fix c
  show "foldl (apply_search n) (foldl (apply_search n) \<sigma> fs) fs c
          = foldl (apply_search n) \<sigma> fs c"
    by (simp add: foldl_apply_search_at [of n _ fs c] split: option.splits)
qed

lemma refreshed_column [simp]: "column (refreshed g f) = column f"
  by (simp add: refreshed_def split: sum.splits)

lemma refreshed_f_refresh [simp]: "f_refresh (refreshed g f) = f_refresh f"
  by (simp add: refreshed_def split: sum.splits)

lemma map_column_refreshed [simp]: "map column (map (refreshed g) fs) = map column fs"
  by (induction fs) simp_all

lemma refreshed_same: "same_data g' g \<Longrightarrow> refreshed g' f = refreshed g f"
  by (simp add: refreshed_def column_values_same [of g' g])

lemma refresh_calls_same: "same_data g' g \<Longrightarrow> refresh_calls g' f = refresh_calls g f"
  by (simp add: refresh_calls_def column_values_same [of g' g])

lemma readable_same:
  "same_data g' g \<Longrightarrow> column f' = column f \<Longrightarrow> readable g' f' = readable g f"
  by (simp add: readable_def column_values_same [of g' g])

lemma readable_all_same:
  "same_data g' g \<Longrightarrow> map column fs' = map column fs \<Longrightarrow>
     list_all (readable g') fs' = list_all (readable g) fs"
proof (induction fs arbitrary: fs')
  case Nil
  then show ?case by simp
next
  case (Cons f fs)
  then obtain f' gs where fs': "fs' = f' # gs" by (cases fs') auto
  show ?case
    using Cons.prems Cons.IH [of gs] readable_same [of g' g f' f] by (simp add: fs')
qed

lemma refresh_payloads_append:
  "refresh_payloads (as @ bs) = refresh_payloads as @ refresh_payloads bs"
  by (induction as rule: refresh_payloads.induct) simp_all

lemma refresh_payloads_columns:
  "refresh_payloads (concat (map (refresh_calls g) fs)) =
     concat (map (\<lambda>c. case column_values g c of Inl e \<Rightarrow> [] | Inr vals \<Rightarrow> [(c, vals)])
               (map column fs))"
  by (induction fs) (simp_all add: refresh_payloads_append refresh_calls_def split: sum.splits)

lemma refreshed_twice:
  assumes "\<forall>vals w. f_refresh f vals (f_refresh f vals w) = f_refresh f vals w"
  shows "refreshed g (refreshed g f) = refreshed g f"
  using assms by (simp add: refreshed_def refresh_def split: sum.splits)

lemma refresh_each_ok:
  assumes "refresh_each this = Inr a"
  shows "list_all (readable (tableAPI a)) (filters a)"
    and "map column (filters a) = map column (filters this)"
    and "filters a = map (refreshed (tableAPI this)) (filters this)"
    and "searchCols (tableAPI a) =
           foldl (apply_search (length (aoColumns (tableAPI this)))) (searchCols (tableAPI this))
             (filters a)"
    and "calls (tableAPI a) =
           calls (tableAPI this) @ concat (map (refresh_calls (tableAPI this)) (filters this))"
proof -
  note f = refresh_each_frame [OF assms]
  show c: "map column (filters a) = map column (filters this)"
    and "filters a = map (refreshed (tableAPI this)) (filters this)"
    and "searchCols (tableAPI a) =
           foldl (apply_search (length (aoColumns (tableAPI this)))) (searchCols (tableAPI this))
             (filters a)"
    and "calls (tableAPI a) =
           calls (tableAPI this) @ concat (map (refresh_calls (tableAPI this)) (filters this))"
    using assms by (auto simp add: refresh_each_eq split: if_splits)
  show "list_all (readable (tableAPI a)) (filters a)"
    using readable_all_same [OF f(2) c] f(9) by simp
qed

lemma refresh_each_total:
  "list_all (readable (tableAPI this)) (filters this) \<Longrightarrow> \<exists>a. refresh_each this = Inr a"
  by (simp add: refresh_each_eq)

lemma refresh_each_settled:
  assumes h: "\<forall>f \<in> set (filters this).
                \<forall>vals w. f_refresh f vals (f_refresh f vals w) = f_refresh f vals w"
    and r: "refresh_each this = Inr a"
  shows "settled a"
proof -
  note f = refresh_each_frame [OF r]
  note k = refresh_each_ok [OF r]
  have g: "refreshed (tableAPI a) = refreshed (tableAPI this)"
    by (rule ext) (rule refreshed_same [OF f(2)])
  have m: "map (refreshed (tableAPI this)) (filters a) = filters a"
    using h unfolding k(3) by (simp add: refreshed_twice)
  have s: "foldl (apply_search (length (aoColumns (tableAPI a)))) (searchCols (tableAPI a))
             (filters a) = searchCols (tableAPI a)"
    unfolding f(4) using k(4) foldl_apply_search_twice [of "length (aoColumns (tableAPI this))"
        "searchCols (tableAPI this)" "filters a"]
    by simp
  show ?thesis
    unfolding settled_def g using k(1) m s by simp
qed

lemma settled_refresh_each:
  assumes "settled this" and "refresh_each this = Inr a"
  shows "filters a = filters this" and "searchCols (tableAPI a) = searchCols (tableAPI this)"
    and "settled a"
proof -
  note f = refresh_each_frame [OF assms(2)]
  note k = refresh_each_ok [OF assms(2)]
  have g: "refreshed (tableAPI a) = refreshed (tableAPI this)"
    by (rule ext) (rule refreshed_same [OF f(2)])
  show fa: "filters a = filters this"
    using assms(1) k(3) by (simp add: settled_def)
  show sa: "searchCols (tableAPI a) = searchCols (tableAPI this)"
    using assms(1) k(4) unfolding fa by (simp add: settled_def)
  show "settled a"
    using assms(1) k(1) unfolding settled_def g fa sa f(4) by simp
qed

lemma settled_frame:
  "settled (log_call c this) = settled this"
  "settled (this\<lparr>tableAPI := (tableAPI this)\<lparr>preDrawOnce := p\<rparr>\<rparr>) = settled this"
proof -
  have d: "same_data (tableAPI (log_call c this)) (tableAPI this)"
    "same_data ((tableAPI this)\<lparr>preDrawOnce := p\<rparr>) (tableAPI this)"
    by (simp_all add: same_data_def)
  have g: "refreshed (tableAPI (log_call c this)) = refreshed (tableAPI this)"
    "refreshed ((tableAPI this)\<lparr>preDrawOnce := p\<rparr>) = refreshed (tableAPI this)"
    by (rule ext, rule refreshed_same [OF d(1)], rule ext, rule refreshed_same [OF d(2)])
  have r: "list_all (readable (tableAPI (log_call c this))) (filters this)
             = list_all (readable (tableAPI this)) (filters this)"
    "list_all (readable ((tableAPI this)\<lparr>preDrawOnce := p\<rparr>)) (filters this)
             = list_all (readable (tableAPI this)) (filters this)"
    by (rule readable_all_same [OF d(1) refl], rule readable_all_same [OF d(2) refl])
  show "settled (log_call c this) = settled this"
    by (simp add: settled_def g(1) r(1))
  show "settled (this\<lparr>tableAPI := (tableAPI this)\<lparr>preDrawOnce := p\<rparr>\<rparr>) = settled this"
    by (simp add: settled_def g(2) r(2))
qed

lemma run_handlers_ok:
  assumes "run_handlers n this = Inr this'"
    and "list_all (readable (tableAPI this)) (filters this)"
  shows "list_all (readable (tableAPI this')) (filters this') \<and>
         same_data (tableAPI this') (tableAPI this) \<and>
         map column (filters this') = map column (filters this) \<and>
         (settled this \<longrightarrow>
            settled this' \<and> filters this' = filters this \<and>
            searchCols (tableAPI this') = searchCols (tableAPI this))"
  using assms
proof (induction n arbitrary: this)
  case 0
  then show ?case by simp
next
  case (Suc n)
  from Suc.prems(1) obtain a where
    a: "refresh_each this = Inr a" and rest: "run_handlers n (log_call Draw a) = Inr this'"
    by (auto split: sum.splits)
  note f = refresh_each_frame [OF a]
  note k = refresh_each_ok [OF a]
  have d: "same_data (tableAPI (log_call Draw a)) (tableAPI a)"
    by (simp add: same_data_def)
  have r: "list_all (readable (tableAPI (log_call Draw a))) (filters (log_call Draw a))"
    using readable_all_same [OF d, of "filters a" "filters a"] k(1) by simp
  note ih = Suc.IH [OF rest r]
  have s: "settled this \<longrightarrow>
            settled this' \<and> filters this' = filters this \<and>
            searchCols (tableAPI this') = searchCols (tableAPI this)"
  proof
    assume st: "settled this"
    note t = settled_refresh_each [OF st a]
    have "settled (log_call Draw a)" using t(3) by (simp add: settled_frame)
    then show "settled this' \<and> filters this' = filters this \<and>
            searchCols (tableAPI this') = searchCols (tableAPI this)"
      using ih t by simp
  qed
  have "same_data (tableAPI this') (tableAPI this)"
    using ih f(2) by (simp add: same_data_def)
  then show ?case
    using ih k(2) s by simp
qed

lemma refreshFilters_ok:
  assumes "refreshFilters this = Inr s1"
  shows "list_all (readable (tableAPI s1)) (filters s1)"
    and "same_data (tableAPI s1) (tableAPI this)"
    and "map column (filters s1) = map column (filters this)"
    and "preDrawOnce (tableAPI s1) = 0"
    and "(\<forall>f \<in> set (filters this).
            \<forall>vals w. f_refresh f vals (f_refresh f vals w) = f_refresh f vals w)
         \<Longrightarrow> settled s1"
proof -
  from assms obtain a where
    a: "refresh_each this = Inr a" and d: "drawTable a = Inr s1"
    by (auto simp add: refreshFilters_def split: sum.splits)
  note f = refresh_each_frame [OF a]
  note k = refresh_each_ok [OF a]
  let ?b = "(log_call Draw a)\<lparr>tableAPI := (tableAPI (log_call Draw a))\<lparr>preDrawOnce := 0\<rparr>\<rparr>"
  have run: "run_handlers (preDrawOnce (tableAPI a)) ?b = Inr s1"
    using d by (simp add: drawTable_def redraw_def)
  have db: "same_data (tableAPI ?b) (tableAPI a)"
    by (simp add: same_data_def)
  have rb: "list_all (readable (tableAPI ?b)) (filters ?b)"
    using readable_all_same [OF db, of "filters a" "filters a"] k(1) by simp
  note ok = run_handlers_ok [OF run rb]
  note c = run_handlers_counts [OF run]
  show "list_all (readable (tableAPI s1)) (filters s1)" using ok by simp
  show "same_data (tableAPI s1) (tableAPI this)"
    using ok f(2) by (simp add: same_data_def)
  show "map column (filters s1) = map column (filters this)"
    using ok k(2) by simp
  show "preDrawOnce (tableAPI s1) = 0" using c by simp
  show "settled s1"
    if h: "\<forall>f \<in> set (filters this).
            \<forall>vals w. f_refresh f vals (f_refresh f vals w) = f_refresh f vals w"
  proof -
    have "settled a" using h a by (rule refresh_each_settled)
    then have "settled ?b"
      using settled_frame(2) [where this = "log_call Draw a" and p = 0]
      by (simp add: settled_frame(1))
    then show ?thesis using ok by simp
  qed
qed

text \<open>
  C9. After a run of \<^verbatim>\<open>refreshFilters\<close> that returns, a second run returns as well. It
  hands the filters the values of their columns over all rows, which are the values of the
  first run, applies each filter again and asks for one redraw. The filters after it are the
  filters of the first run refreshed once more with the same values, and the searches are
  those of the filters so refreshed. When the \<^verbatim>\<open>refresh\<close> of every filter gives the same
  widget on being handed the same values a second time, the filters, their option lists
  included, and the column searches after the second run are those after the first.
\<close>

theorem refreshFilters_twice:
  assumes "refreshFilters this = Inr s1"
  shows "\<exists>s2. refreshFilters s1 = Inr s2 \<and>
     calls (tableAPI s2) =
       calls (tableAPI s1) @ concat (map (refresh_calls (tableAPI this)) (filters s1)) @ [Draw] \<and>
     refresh_payloads (concat (map (refresh_calls (tableAPI this)) (filters s1))) =
       refresh_payloads (concat (map (refresh_calls (tableAPI this)) (filters this))) \<and>
     filters s2 = map (refreshed (tableAPI this)) (filters s1) \<and>
     searchCols (tableAPI s2) =
       foldl (apply_search (length (aoColumns (tableAPI this)))) (searchCols (tableAPI s1))
         (filters s2) \<and>
     ((\<forall>f \<in> set (filters this).
         \<forall>vals w. f_refresh f vals (f_refresh f vals w) = f_refresh f vals w) \<longrightarrow>
        filters s2 = filters s1 \<and> searchCols (tableAPI s2) = searchCols (tableAPI s1))"
proof -
  note ok = refreshFilters_ok [OF assms]
  from refresh_each_total [OF ok(1)] obtain b where b: "refresh_each s1 = Inr b" by auto
  note f = refresh_each_frame [OF b]
  note k = refresh_each_ok [OF b]
  have g: "refreshed (tableAPI s1) = refreshed (tableAPI this)"
    "refresh_calls (tableAPI s1) = refresh_calls (tableAPI this)"
    by (rule ext, rule refreshed_same [OF ok(2)], rule ext, rule refresh_calls_same [OF ok(2)])
  have n: "aoColumns (tableAPI s1) = aoColumns (tableAPI this)"
    using ok(2) by (simp add: same_data_def)
  have two: "refreshFilters s1 = Inr (log_call Draw b)"
    using b f(7) ok(4) by (simp add: refreshFilters_def drawTable_idle)
  have p: "refresh_payloads (concat (map (refresh_calls (tableAPI this)) (filters s1))) =
       refresh_payloads (concat (map (refresh_calls (tableAPI this)) (filters this)))"
    by (simp add: refresh_payloads_columns ok(3))
  have i: "(\<forall>f \<in> set (filters this).
         \<forall>vals w. f_refresh f vals (f_refresh f vals w) = f_refresh f vals w) \<longrightarrow>
        filters (log_call Draw b) = filters s1 \<and>
        searchCols (tableAPI (log_call Draw b)) = searchCols (tableAPI s1)"
  proof
    assume "\<forall>f \<in> set (filters this).
         \<forall>vals w. f_refresh f vals (f_refresh f vals w) = f_refresh f vals w"
    then have "settled s1" by (rule ok(5))
    from settled_refresh_each [OF this b]
    show "filters (log_call Draw b) = filters s1 \<and>
        searchCols (tableAPI (log_call Draw b)) = searchCols (tableAPI s1)"
      by simp
  qed
  have c: "calls (tableAPI (log_call Draw b)) =
       calls (tableAPI s1) @ concat (map (refresh_calls (tableAPI this)) (filters s1)) @ [Draw]"
    using k(5) unfolding g by simp
  have m: "filters (log_call Draw b) = map (refreshed (tableAPI this)) (filters s1)"
    using k(3) unfolding g by simp
  have q: "searchCols (tableAPI (log_call Draw b)) =
       foldl (apply_search (length (aoColumns (tableAPI this)))) (searchCols (tableAPI s1))
         (filters (log_call Draw b))"
    using k(4) unfolding n by simp
  show ?thesis
    using two c p m q i by blast
qed

lemma options_once:
  "map_sum id (\<lambda>s. (calls (tableAPI s), map widget (filters s),
                     map (searchCols (tableAPI s)) [0, 1]))
     (refreshFilters options_state) =
     Inr ([FRefresh 0 [''a'', ''b''], Search 0 ''a'' True False,
           FRefresh 1 [''x'', ''y''], Search 1 ''x'' False False, Draw],
          [(''a'', []), (''x'', [''x'', ''y''])],
          [(''a'', True, False), (''x'', False, False)])"
  by (simp add: sample_defs run_defs grid_defs)

text \<open>
  Two runs on \<open>options_state\<close>, whose select filter takes the values as its options.
\<close>

theorem refreshFilters_twice_witness:
  "list_all (\<lambda>f. \<forall>vals w. f_refresh f vals (f_refresh f vals w) = f_refresh f vals w)
     (filters options_state) \<and>
   map_sum id (\<lambda>s. (calls (tableAPI s), map widget (filters s),
                     map (searchCols (tableAPI s)) [0, 1]))
     (refreshFilters options_state) =
     Inr ([FRefresh 0 [''a'', ''b''], Search 0 ''a'' True False,
           FRefresh 1 [''x'', ''y''], Search 1 ''x'' False False, Draw],
          [(''a'', []), (''x'', [''x'', ''y''])],
          [(''a'', True, False), (''x'', False, False)]) \<and>
   map_sum id (\<lambda>s. (calls (tableAPI s), map widget (filters s),
                     map (searchCols (tableAPI s)) [0, 1]))
     (case refreshFilters options_state of Inl e \<Rightarrow> Inl e | Inr s \<Rightarrow> refreshFilters s) =
     Inr ([FRefresh 0 [''a'', ''b''], Search 0 ''a'' True False,
           FRefresh 1 [''x'', ''y''], Search 1 ''x'' False False, Draw,
           FRefresh 0 [''a'', ''b''], Search 0 ''a'' True False,
           FRefresh 1 [''x'', ''y''], Search 1 ''x'' False False, Draw],
          [(''a'', []), (''x'', [''x'', ''y''])],
          [(''a'', True, False), (''x'', False, False)])"
proof -
  define s1 where
    "s1 = (case refreshFilters options_state of Inr s \<Rightarrow> s | Inl e \<Rightarrow> options_state)"
  have e1: "refreshFilters options_state = Inr s1"
    using options_once by (auto simp add: s1_def split: sum.splits)
  have h: "\<forall>f \<in> set (filters options_state).
      \<forall>vals w. f_refresh f vals (f_refresh f vals w) = f_refresh f vals w"
    by (simp add: sample_defs)
  have o: "calls (tableAPI s1) =
       [FRefresh 0 [''a'', ''b''], Search 0 ''a'' True False,
        FRefresh 1 [''x'', ''y''], Search 1 ''x'' False False, Draw]"
    "map widget (filters s1) = [(''a'', []), (''x'', [''x'', ''y''])]"
    "map (searchCols (tableAPI s1)) [0, 1] = [(''a'', True, False), (''x'', False, False)]"
    using options_once unfolding e1 by simp_all
  have rc: "concat (map (refresh_calls (tableAPI options_state)) (filters s1)) =
       [FRefresh 0 [''a'', ''b''], Search 0 ''a'' True False,
        FRefresh 1 [''x'', ''y''], Search 1 ''x'' False False]"
  proof -
    have "filters s1 = map (refreshed (tableAPI options_state)) (filters options_state)"
      using e1
      by (auto simp add: refreshFilters_def drawTable_idle refresh_each_eq sample_grid_def
          options_state_def split: sum.splits if_splits)
    then show ?thesis
      by (simp add: sample_defs refresh_calls_def refreshed_def column_values_def grid_defs
          refresh_def getQuery_def isRegexMatch_def)
  qed
  from refreshFilters_twice [OF e1] obtain s2 where
    e2: "refreshFilters s1 = Inr s2"
    and c2: "calls (tableAPI s2) =
       calls (tableAPI s1)
         @ concat (map (refresh_calls (tableAPI options_state)) (filters s1)) @ [Draw]"
    and i2: "(\<forall>f \<in> set (filters options_state).
         \<forall>vals w. f_refresh f vals (f_refresh f vals w) = f_refresh f vals w) \<longrightarrow>
        filters s2 = filters s1 \<and> searchCols (tableAPI s2) = searchCols (tableAPI s1)"
    by blast
  have same: "filters s2 = filters s1" "searchCols (tableAPI s2) = searchCols (tableAPI s1)"
    using i2 h by blast+
  have second: "map_sum id (\<lambda>s. (calls (tableAPI s), map widget (filters s),
                     map (searchCols (tableAPI s)) [0, 1]))
     (case refreshFilters options_state of Inl e \<Rightarrow> Inl e | Inr s \<Rightarrow> refreshFilters s) =
     Inr ([FRefresh 0 [''a'', ''b''], Search 0 ''a'' True False,
           FRefresh 1 [''x'', ''y''], Search 1 ''x'' False False, Draw,
           FRefresh 0 [''a'', ''b''], Search 0 ''a'' True False,
           FRefresh 1 [''x'', ''y''], Search 1 ''x'' False False, Draw],
          [(''a'', []), (''x'', [''x'', ''y''])],
          [(''a'', True, False), (''x'', False, False)])"
    using o by (simp add: e1 e2 c2 rc same)
  have h': "list_all (\<lambda>f. \<forall>vals w. f_refresh f vals (f_refresh f vals w) = f_refresh f vals w)
     (filters options_state)"
    using h by (simp add: list_all_iff)
  show ?thesis
    using h' options_once second by blast
qed

text \<open>
  A select filter that adds the values it is refreshed with to its options holds
  \<^verbatim>\<open>x\<close>, \<^verbatim>\<open>y\<close> after one run and \<^verbatim>\<open>x\<close>, \<^verbatim>\<open>y\<close>, \<^verbatim>\<open>x\<close>, \<^verbatim>\<open>y\<close> after two.
\<close>

theorem refreshFilters_adding_counterexample:
  "map_sum id (\<lambda>s. map widget (filters s)) (refreshFilters adding_state) =
     Inr [([], [''x'', ''y''])] \<and>
   map_sum id (\<lambda>s. map widget (filters s))
     (case refreshFilters adding_state of Inl e \<Rightarrow> Inl e | Inr s \<Rightarrow> refreshFilters s) =
     Inr [([], [''x'', ''y'', ''x'', ''y''])]"
  by (simp add: sample_defs run_defs grid_defs)

section \<open>The constructor\<close>

lemma build_filters_unknown:
  "param \<in> set ps \<Longrightarrow> cfilter param = Some d \<Longrightarrow> builders (ftype d) = None \<Longrightarrow>
   build_filters builders col rc ps fs = Inl TypeError"
  by (induction ps arbitrary: col rc fs) (auto split: option.splits)

lemma build_filters_none:
  "\<forall>param \<in> set ps. cfilter param = None \<Longrightarrow> build_filters builders col rc ps fs = Inr fs"
  by (induction ps arbitrary: col rc fs) auto

lemma init_all_prefix:
  "k \<le> length (filters this) \<Longrightarrow>
   foldl (\<lambda>s j. log_call (FInit (column (filters s ! j)))
                     (s\<lparr>filters := (filters s)[j := init (filters s ! j)]\<rparr>)) this [0..<k]
   = this\<lparr>filters := map init (take k (filters this)) @ drop k (filters this),
          tableAPI := (tableAPI this)\<lparr>calls := calls (tableAPI this) @ map (\<lambda>f. FInit (column f)) (take k (filters this))\<rparr>\<rparr>"
proof (induction k)
  case 0
  then show ?case by simp
next
  case (Suc k)
  then have k: "k < length (filters this)" by simp
  have upd: "(map init (take k (filters this)) @ drop k (filters this))[k := init (filters this ! k)]
     = map init (take (Suc k) (filters this)) @ drop (Suc k) (filters this)"
    using k by (simp add: take_Suc_conv_app_nth list_update_append Cons_nth_drop_Suc[symmetric])
  have nth: "(map init (take k (filters this)) @ drop k (filters this)) ! k = filters this ! k"
    using k by (simp add: nth_append)
  show ?case using Suc.IH k upd nth
    by (simp add: log_call_def take_Suc_conv_app_nth)
qed

lemma init_all_eq:
  "init_all this =
     this\<lparr>filters := map init (filters this),
          tableAPI := (tableAPI this)
            \<lparr>calls := calls (tableAPI this) @ map (\<lambda>f. FInit (column f)) (filters this)\<rparr>\<rparr>"
  unfolding init_all_def using init_all_prefix [of "length (filters this)" this] by simp

lemma applyInitialFilter_eq:
  "applyInitialFilter f this =
     this\<lparr>tableAPI := (tableAPI this)
            \<lparr>searchCols := apply_initial (length (aoColumns (tableAPI this)))
                             (searchCols (tableAPI this)) f,
             calls := calls (tableAPI this) @ [initial_call f]\<rparr>\<rparr>"
  by (simp add: applyInitialFilter_def api_search_def apply_initial_def initial_call_def
      set_search_def)

lemma apply_initial_all:
  "foldl (\<lambda>s f. applyInitialFilter f s) this fs =
     this\<lparr>tableAPI := (tableAPI this)
            \<lparr>searchCols := foldl (apply_initial (length (aoColumns (tableAPI this))))
                             (searchCols (tableAPI this)) fs,
             calls := calls (tableAPI this) @ map initial_call fs\<rparr>\<rparr>"
proof (induction fs rule: rev_induct)
  case Nil
  show ?case by simp
next
  case (snoc f fs)
  then show ?case
    by (simp add: applyInitialFilter_eq)
qed

lemma foldl_apply_initial_at:
  "foldl (apply_initial n) \<sigma> fs c =
     (case find (\<lambda>f. column f = c) (rev fs) of
        None \<Rightarrow> \<sigma> c
      | Some f \<Rightarrow> if c < n then (getInitialQuery f, isRegexMatch f, False) else \<sigma> c)"
proof (induction fs rule: rev_induct)
  case Nil
  show ?case by simp
next
  case (snoc f fs)
  then show ?case
    by (auto simp add: apply_initial_def set_search_def split: option.splits)
qed

text \<open>
  C5. If no column declares a filter descriptor, the constructor returns a coordinator
  with an empty collection and leaves the grid exactly as it received it: no handler
  bound, nothing appended to the header, no search applied, no call made.
\<close>

theorem new_Filters_no_filter:
  assumes "\<forall>param \<in> set (aoColumns settings). cfilter param = None"
  shows "new_Filters builders settings =
           Inr \<lparr>tableAPI = settings, url = ajaxUrl settings, filters = []\<rparr>"
  using build_filters_none [of "aoColumns settings" builders 0 0 "[]"] assms
  by (simp add: new_Filters_def)

theorem new_Filters_no_filter_witness:
  "list_all (\<lambda>param. cfilter param = None) (aoColumns plain_settings) \<and>
   map_sum id (\<lambda>this. (calls (tableAPI this), initSubs (tableAPI this), xhrSubs (tableAPI this),
                        preDrawOnce (tableAPI this), headerRows (tableAPI this),
                        searchCols (tableAPI this) 0, filters this))
     (new_Filters sample_builders plain_settings)
   = Inr ([], 0, 0, 0, [], ([], False, True), [])"
  using new_Filters_no_filter [of plain_settings sample_builders]
  by (simp add: plain_settings_def sample_grid_def plain_column_def)

text \<open>
  C6. A column descriptor whose type name the registry does not hold makes the
  construction fail with an exception; the column is not skipped.
\<close>

theorem new_Filters_unknown_type:
  assumes "param \<in> set (aoColumns settings)" and "cfilter param = Some d"
    and "builders (ftype d) = None"
  shows "new_Filters builders settings = Inl TypeError"
  using build_filters_unknown [of param "aoColumns settings" d builders 0 0 "[]"] assms
  by (simp add: new_Filters_def)

theorem new_Filters_unknown_type_witness:
  "new_Filters sample_builders unknown_settings = Inl TypeError"
  using new_Filters_unknown_type
    [of "filter_column ''range'' [] ''Age''" unknown_settings
        "\<lparr>ftype = ''range'', fcolumn = None, frenderColumn = None, fparams = []\<rparr>"
        sample_builders]
  by (simp add: unknown_settings_def sample_grid_def sample_builders_def filter_column_def)

text \<open>
  C7. When the constructor builds at least one filter, it returns with every filter
  initialised. The search of a column \<open>c\<close> of the grid is then the initial query of the
  last filter of the collection whose \<^verbatim>\<open>column\<close> is \<open>c\<close>; a column that no filter names,
  and an index that is no column of the grid, keep the search the grid had. The calls the
  constructor makes are the \<^verbatim>\<open>init\<close> of each filter, the search of each filter's column
  and the binding to \<^verbatim>\<open>init\<close>, in that order: it asks for no fetch, reload or redraw, and
  the rows are untouched. The constructor runs on \<^verbatim>\<open>preInit\<close>, which the grid fires before
  it asks for its first load (\<open>start\<close>); that load, \<open>load rs\<close>, brings the rows and
  finds the searches as the constructor left them.
\<close>

theorem new_Filters_initial_queries:
  assumes built: "build_filters builders 0 0 (aoColumns settings) [] = Inr fs"
    and some: "fs \<noteq> []"
  shows "\<exists>this. new_Filters builders settings = Inr this \<and>
           filters this = map init fs \<and>
           (\<forall>c. searchCols (tableAPI this) c =
                  (case find (\<lambda>f. column f = c) (rev (filters this)) of
                     None \<Rightarrow> searchCols settings c
                   | Some f \<Rightarrow>
                       if c < length (aoColumns settings)
                       then (getInitialQuery f, isRegexMatch f, False)
                       else searchCols settings c)) \<and>
           calls (tableAPI this) =
             calls settings @ map (\<lambda>f. FInit (column f)) fs @ map initial_call (map init fs)
               @ [On ''init''] \<and>
           rows (tableAPI this) = rows settings \<and>
           initSubs (tableAPI this) = Suc (initSubs settings) \<and>
           (\<forall>rs. rows (tableAPI (load rs this)) = rs \<and>
                 searchCols (tableAPI (load rs this)) = searchCols (tableAPI this))"
proof -
  let ?res0 = "\<lparr>tableAPI = settings, url = ajaxUrl settings, filters = fs\<rparr>"
  let ?res1 = "init_all ?res0"
  let ?res2 = "foldl (\<lambda>s f. applyInitialFilter f s) ?res1 (filters ?res1)"
  let ?res = "?res2\<lparr>tableAPI := api_on_init (tableAPI ?res2)\<rparr>"
  have res: "new_Filters builders settings = Inr ?res"
    using built some by (simp add: new_Filters_def Let_def)
  have f1: "filters ?res1 = map init fs" by (simp add: init_all_eq)
  have fl: "filters ?res = map init fs"
    by (simp add: apply_initial_all f1 init_all_eq)
  have sc: "searchCols (tableAPI ?res) =
      foldl (apply_initial (length (aoColumns settings))) (searchCols settings) (map init fs)"
    by (simp add: apply_initial_all f1 api_on_init_def init_all_eq)
  have cl: "calls (tableAPI ?res) =
             calls settings @ map (\<lambda>f. FInit (column f)) fs @ map initial_call (map init fs)
               @ [On ''init'']"
    by (simp add: apply_initial_all f1 api_on_init_def init_all_eq)
  have rw: "rows (tableAPI ?res) = rows settings"
    by (simp add: apply_initial_all f1 api_on_init_def init_all_eq)
  have su: "initSubs (tableAPI ?res) = Suc (initSubs settings)"
    by (simp add: apply_initial_all f1 api_on_init_def init_all_eq)
  have at: "\<forall>c. searchCols (tableAPI ?res) c =
                  (case find (\<lambda>f. column f = c) (rev (filters ?res)) of
                     None \<Rightarrow> searchCols settings c
                   | Some f \<Rightarrow>
                       if c < length (aoColumns settings)
                       then (getInitialQuery f, isRegexMatch f, False)
                       else searchCols settings c)"
    unfolding sc fl by (simp add: foldl_apply_initial_at)
  have ld: "\<forall>rs. rows (tableAPI (load rs ?res)) = rs \<and>
                 searchCols (tableAPI (load rs ?res)) = searchCols (tableAPI ?res)"
    by (simp add: load_def Let_def fire_xhr_effect)
  show ?thesis
    using res fl at cl rw su ld by blast
qed

theorem new_Filters_initial_queries_witness:
  "build_filters sample_builders 0 0 (aoColumns sample_settings) []
     = Inr [text_variant 0 0 [], select_variant 2 1 ''x''] \<and>
   (\<exists>this. new_Filters sample_builders sample_settings = Inr this \<and>
      searchCols (tableAPI this) 0 = ([], True, False) \<and>
      searchCols (tableAPI this) 1 = ([], False, True) \<and>
      searchCols (tableAPI this) 2 = (''x'', False, False) \<and>
      calls (tableAPI this) =
        [FInit 0, FInit 2, Search 0 [] True False, Search 2 ''x'' False False, On ''init''] \<and>
      searchCols (tableAPI (load [[''a'', ''1'', ''x'']] this)) 2 = (''x'', False, False))"
proof -
  have b: "build_filters sample_builders 0 0 (aoColumns sample_settings) []
     = Inr [text_variant 0 0 [], select_variant 2 1 ''x'']"
    by (simp add: sample_settings_def sample_grid_def sample_builders_def numeral_2_eq_2
        filter_column_def plain_column_def initial_of_def)
  from new_Filters_initial_queries [OF b] obtain this where
    n: "new_Filters sample_builders sample_settings = Inr this"
    and f: "filters this = map init [text_variant 0 0 [], select_variant 2 1 ''x'']"
    and s: "\<forall>c. searchCols (tableAPI this) c =
                  (case find (\<lambda>f. column f = c) (rev (filters this)) of
                     None \<Rightarrow> searchCols sample_settings c
                   | Some f \<Rightarrow>
                       if c < length (aoColumns sample_settings)
                       then (getInitialQuery f, isRegexMatch f, False)
                       else searchCols sample_settings c)"
    and c: "calls (tableAPI this) =
             calls sample_settings
               @ map (\<lambda>f. FInit (column f)) [text_variant 0 0 [], select_variant 2 1 ''x'']
               @ map initial_call (map init [text_variant 0 0 [], select_variant 2 1 ''x''])
               @ [On ''init'']"
    and l: "\<forall>rs. rows (tableAPI (load rs this)) = rs \<and>
                 searchCols (tableAPI (load rs this)) = searchCols (tableAPI this)"
    by blast
  have s0: "searchCols (tableAPI this) 0 = ([], True, False)"
    and s1: "searchCols (tableAPI this) 1 = ([], False, True)"
    and s2: "searchCols (tableAPI this) 2 = (''x'', False, False)"
    unfolding s [rule_format] f
    by (simp_all add: sample_settings_def sample_grid_def text_variant_def select_variant_def
        init_def getInitialQuery_def isRegexMatch_def)
  have c': "calls (tableAPI this) =
        [FInit 0, FInit 2, Search 0 [] True False, Search 2 ''x'' False False, On ''init'']"
    unfolding c
    by (simp add: sample_settings_def sample_grid_def text_variant_def select_variant_def
        init_def getInitialQuery_def isRegexMatch_def initial_call_def)
  have l': "searchCols (tableAPI (load [[''a'', ''1'', ''x'']] this)) 2 = (''x'', False, False)"
    using l s2 by simp
  show ?thesis
    using b n s0 s1 s2 c' l' by blast
qed

text \<open>
  Two descriptors that both name column 1, with the initial queries \<^verbatim>\<open>p\<close> and \<^verbatim>\<open>q\<close>:
  the search of column 1 is \<^verbatim>\<open>q\<close>, and \<^verbatim>\<open>p\<close> is in force nowhere. A descriptor that
  names column 7 of a grid of one column: its initial query \<^verbatim>\<open>p\<close> is in force nowhere.
\<close>

theorem new_Filters_shared_column_counterexample:
  "map_sum id (\<lambda>this. (map column (filters this), map getInitialQuery (filters this),
                        map (searchCols (tableAPI this)) [0, 1]))
     (new_Filters sample_builders doubled_settings) =
     Inr ([1, 1], [''p'', ''q''], [([], False, True), (''q'', False, False)]) \<and>
   map_sum id (\<lambda>this. (map column (filters this), map getInitialQuery (filters this),
                        map (searchCols (tableAPI this)) [0, 7]))
     (new_Filters sample_builders outside_settings) =
     Inr ([7], [''p''], [([], False, True), ([], False, True)])"
  by (simp add: new_Filters_def init_all_def init_def applyInitialFilter_def
      getInitialQuery_def isRegexMatch_def api_on_init_def api_search_def log_call_def
      sample_builders_def initial_of_def doubled_settings_def outside_settings_def
      sample_grid_def select_variant_def Let_def)

section \<open>The server-side change handler\<close>

text \<open>
  C4. \<^verbatim>\<open>onServerFilterChange\<close> makes exactly two calls: it sets the remote URL to the
  coordinator's stored base URL, \<^verbatim>\<open>?\<close>, and the server queries of all server-side
  filters joined by \<^verbatim>\<open>&\<close>, then asks for a reload. Every server-side filter
  contributes, with or without a value. The stored base URL, the filters and the column
  searches stay as they were, and no redraw is asked for.
\<close>

theorem onServerFilterChange_reload:
  "calls (tableAPI (onServerFilterChange this)) =
     calls (tableAPI this) @
       [AjaxUrl (url this @ ''?'' @
          join ''&'' (map getServerQuery (filter isServerSide (filters this)))),
        AjaxReload] \<and>
   ajaxUrl (tableAPI (onServerFilterChange this)) =
     url this @ ''?'' @ join ''&'' (map getServerQuery (filter isServerSide (filters this))) \<and>
   url (onServerFilterChange this) = url this \<and>
   filters (onServerFilterChange this) = filters this \<and>
   searchCols (tableAPI (onServerFilterChange this)) = searchCols (tableAPI this) \<and>
   preDrawOnce (tableAPI (onServerFilterChange this)) = preDrawOnce (tableAPI this)"
  by (simp add: onServerFilterChange_def api_ajax_url_def api_ajax_reload_def Let_def)

theorem onServerFilterChange_reload_witness:
  "calls (tableAPI (onServerFilterChange server_state)) =
     [AjaxUrl ''/data?q=ann&q='', AjaxReload] \<and>
   ajaxUrl (tableAPI (onServerFilterChange server_state)) = ''/data?q=ann&q=''"
  using onServerFilterChange_reload [of server_state]
  by (simp add: server_state_def sample_grid_def server_variant_def text_variant_def
      getServerQuery_def isServerSide_def)

text \<open>The base URL is the grid's remote URL at construction.\<close>

lemma new_Filters_url:
  "new_Filters builders settings = Inr this \<Longrightarrow> url this = ajaxUrl settings"
  by (auto simp add: new_Filters_def Let_def init_all_eq apply_initial_all
      split: sum.splits if_splits)

end
